theory Spec2Isabelle
  imports Main
begin

section \<open>Data model\<close>

text \<open>
  The outfit composition engine lives in the React component \<open>App\<close> of \<open>src/App.tsx\<close>.
  Its state is a set of \<open>useState\<close> cells; its operations are the event handlers
  \<open>handleModelFinalized\<close>, \<open>handleGarmentSelect\<close>, \<open>handleRemoveLastGarment\<close>,
  \<open>handlePoseSelect\<close> and \<open>handleApplySavedOutfit\<close> (with its helper
  \<open>applyGarmentSequence\<close>). Each handler is modelled as a function on the state cells it
  reads and writes.

  A \<open>WardrobeItem\<close> carries an id, a display name and an image locator. Its optional
  \<open>price\<close> is a floating-point number that only the rendering code reads; it is left out.
  The field \<open>id\<close> is written \<open>itemId\<close> here, and the \<open>id\<close> and \<open>name\<close> of a
  \<open>SavedOutfit\<close> are written \<open>outfitId\<close> and \<open>outfitName\<close>; the other names are
  those of the source.
\<close>

record WardrobeItem =
  itemId :: string
  name :: string
  url :: string
  brand :: "string option"
  material :: "string option"

text \<open>
  \<open>poseImages\<close> is a plain JavaScript object used as a dictionary from pose instruction to
  image URL. The code depends on the order of its entries (\<open>Object.values(...)[0]\<close>), so it
  is an association list in insertion order with unique keys. (JavaScript keeps insertion
  order for keys that are not canonical array indices; every key the handlers write is a
  pose instruction or the text \<open>undefined\<close>.)
\<close>

record OutfitLayer =
  garment :: "WardrobeItem option"
  poseImages :: "(string \<times> string) list"

record SavedOutfit =
  outfitId :: string
  outfitName :: string
  garmentIds :: "string list"
  previewUrl :: string

record app_state =
  modelImageUrl :: "string option"
  outfitHistory :: "OutfitLayer list"
  currentOutfitIndex :: nat
  isLoading :: bool
  loadingMessage :: string
  error :: "string option"
  currentPoseIndex :: nat
  wardrobe :: "WardrobeItem list"

section \<open>JavaScript primitives used by the handlers\<close>

text \<open>\<open>xs[i]\<close> on an array: \<open>undefined\<close> (here \<open>None\<close>) out of range.\<close>

definition at :: "'a list \<Rightarrow> nat \<Rightarrow> 'a option" where
  "at xs i = (if i < length xs then Some (xs ! i) else None)"

text \<open>A string-or-undefined value used as a property key is converted to a string.\<close>

definition prop_key :: "string option \<Rightarrow> string" where
  "prop_key k = (case k of None \<Rightarrow> ''undefined'' | Some s \<Rightarrow> s)"

text \<open>\<open>obj[k]\<close> as a read: the stored value, or \<open>undefined\<close>.\<close>

definition prop_get :: "(string \<times> string) list \<Rightarrow> string option \<Rightarrow> string option" where
  "prop_get obj k = map_of obj (prop_key k)"

text \<open>
  \<open>obj[k] = v\<close>: an existing key keeps its position and gets the new value, a new key is
  appended.
\<close>

fun prop_put :: "string \<Rightarrow> string \<Rightarrow> (string \<times> string) list \<Rightarrow> (string \<times> string) list" where
  "prop_put k v [] = [(k, v)]"
| "prop_put k v (p # ps) = (if fst p = k then (k, v) # ps else p # prop_put k v ps)"

definition prop_set :: "(string \<times> string) list \<Rightarrow> string option \<Rightarrow> string \<Rightarrow> (string \<times> string) list" where
  "prop_set obj k v = prop_put (prop_key k) v obj"

text \<open>\<open>Object.values(obj)[0]\<close>.\<close>

definition first_value :: "(string \<times> string) list \<Rightarrow> string option" where
  "first_value obj = (case obj of [] \<Rightarrow> None | p # _ \<Rightarrow> Some (snd p))"

text \<open>Truthiness of a string-or-undefined value: defined and not the empty string.\<close>

definition truthy :: "string option \<Rightarrow> bool" where
  "truthy v = (case v of None \<Rightarrow> False | Some s \<Rightarrow> s \<noteq> [])"

definition POSE_INSTRUCTIONS :: "string list" where
  "POSE_INSTRUCTIONS =
     [''Full frontal view, hands on hips'',
      ''Slightly turned, 3/4 view'',
      ''Side profile view'',
      ''Jumping in the air, mid-action shot'',
      ''Walking towards camera'',
      ''Leaning against a wall'']"

section \<open>The external services\<close>

text \<open>
  The handlers await three asynchronous functions that live outside this component:
  \<open>generateVirtualTryOnImage(base, garmentFile)\<close>, \<open>generatePoseVariation(base, instruction)\<close>
  and \<open>urlToFile(url, name)\<close>. Each either resolves to a value or throws. A \<open>File\<close> is
  represented by a string token (type \<open>blob\<close>), a thrown value by a string. The requests
  are the constructors \<open>TryOn\<close>, \<open>PoseVariation\<close> and \<open>UrlToFile\<close> of \<open>call\<close>, in
  that order; the first two are the generation requests.

  Every request is recorded, in order, in the list \<open>calls\<close>. The answer to a request may
  depend on the request and on everything requested before it, so a service that fails
  once and succeeds later on the same arguments is covered. \<open>getFriendlyErrorMessage\<close>
  (\<open>lib/utils\<close>) turns a thrown value and a context text into the message that is shown; it
  is a parameter.
\<close>

type_synonym blob = string
type_synonym exn = string

datatype call =
    TryOn string blob
  | PoseVariation string "string option"
  | UrlToFile string string

record env =
  respond :: "call list \<Rightarrow> call \<Rightarrow> exn + string"
  getFriendlyErrorMessage :: "exn \<Rightarrow> string \<Rightarrow> string"

record world =
  app :: app_state
  calls :: "call list"

definition await :: "env \<Rightarrow> call \<Rightarrow> world \<Rightarrow> (exn + string) \<times> world" where
  "await E c w = (respond E (calls w) c, w\<lparr>calls := calls w @ [c]\<rparr>)"

definition generation_call :: "call \<Rightarrow> bool" where
  "generation_call c = (case c of TryOn _ _ \<Rightarrow> True | PoseVariation _ _ \<Rightarrow> True | UrlToFile _ _ \<Rightarrow> False)"

text \<open>
  What a handler has done when it reaches its first \<open>await\<close> or returns before one:
  it returned, it is suspended on a request (the state shown is the one the user sees
  while the request is in flight), or it threw a \<open>TypeError\<close> before any state update.
\<close>

datatype step = Returned app_state | Awaiting call app_state | Threw app_state

section \<open>Derived views\<close>

definition displayImageUrl :: "app_state \<Rightarrow> string option" where
  "displayImageUrl s =
     (if outfitHistory s = [] then modelImageUrl s
      else case at (outfitHistory s) (currentOutfitIndex s) of
             None \<Rightarrow> modelImageUrl s
           | Some currentLayer \<Rightarrow>
               (case prop_get (poseImages currentLayer) (at POSE_INSTRUCTIONS (currentPoseIndex s)) of
                  Some v \<Rightarrow> Some v
                | None \<Rightarrow> first_value (poseImages currentLayer)))"

section \<open>Handlers\<close>

definition handleModelFinalized :: "string \<Rightarrow> app_state \<Rightarrow> app_state" where
  "handleModelFinalized u s =
     s\<lparr>modelImageUrl := Some u,
       outfitHistory := [\<lparr>garment = None, poseImages = [(prop_key (at POSE_INSTRUCTIONS 0), u)]\<rparr>],
       currentOutfitIndex := 0\<rparr>"

subsection \<open>handleGarmentSelect\<close>

text \<open>The synchronous part, up to the \<open>await\<close> of the generation request.\<close>

definition handleGarmentSelect_begin :: "blob \<Rightarrow> WardrobeItem \<Rightarrow> app_state \<Rightarrow> step" where
  "handleGarmentSelect_begin garmentFile garmentInfo s =
     (case displayImageUrl s of
        None \<Rightarrow> Returned s
      | Some img \<Rightarrow>
          if img = [] \<or> isLoading s then Returned s
          else if (case at (outfitHistory s) (currentOutfitIndex s + 1) of
                     None \<Rightarrow> False
                   | Some nextLayer \<Rightarrow>
                       (case garment nextLayer of
                          None \<Rightarrow> False
                        | Some g \<Rightarrow> itemId g = itemId garmentInfo))
          then Returned (s\<lparr>currentOutfitIndex := currentOutfitIndex s + 1, currentPoseIndex := 0\<rparr>)
          else Awaiting (TryOn img garmentFile)
                 (s\<lparr>error := None, isLoading := True,
                    loadingMessage := ''Adding '' @ name garmentInfo @ ''...''\<rparr>))"

text \<open>
  The part after the \<open>await\<close>. \<open>idx\<close> is the \<open>currentOutfitIndex\<close> the closure captured when
  the handler was created; the updater functions read the state as it is when they run.
\<close>

definition handleGarmentSelect_resume ::
  "env \<Rightarrow> nat \<Rightarrow> WardrobeItem \<Rightarrow> exn + string \<Rightarrow> app_state \<Rightarrow> app_state" where
  "handleGarmentSelect_resume E idx garmentInfo r s =
     (let s' =
        (case r of
           Inr newImageUrl \<Rightarrow>
             s\<lparr>outfitHistory :=
                 take (idx + 1) (outfitHistory s) @
                 [\<lparr>garment = Some garmentInfo,
                   poseImages = [(prop_key (at POSE_INSTRUCTIONS 0), newImageUrl)]\<rparr>],
               currentOutfitIndex := currentOutfitIndex s + 1,
               currentPoseIndex := 0,
               wardrobe :=
                 (case find (\<lambda>item. itemId item = itemId garmentInfo) (wardrobe s) of
                    Some _ \<Rightarrow> wardrobe s
                  | None \<Rightarrow> wardrobe s @ [garmentInfo])\<rparr>
         | Inl err \<Rightarrow>
             s\<lparr>error := Some (getFriendlyErrorMessage E err ''Failed to apply garment'')\<rparr>)
      in s'\<lparr>isLoading := False, loadingMessage := []\<rparr>)"

text \<open>The whole handler, run to completion with nothing else happening in between.\<close>

definition handleGarmentSelect :: "env \<Rightarrow> blob \<Rightarrow> WardrobeItem \<Rightarrow> world \<Rightarrow> world" where
  "handleGarmentSelect E garmentFile garmentInfo w =
     (case handleGarmentSelect_begin garmentFile garmentInfo (app w) of
        Returned s \<Rightarrow> w\<lparr>app := s\<rparr>
      | Threw s \<Rightarrow> w\<lparr>app := s\<rparr>
      | Awaiting c s1 \<Rightarrow>
          (case await E c (w\<lparr>app := s1\<rparr>) of
             (r, w1) \<Rightarrow>
               w1\<lparr>app := handleGarmentSelect_resume E (currentOutfitIndex (app w)) garmentInfo r (app w1)\<rparr>))"

subsection \<open>handleRemoveLastGarment\<close>

definition handleRemoveLastGarment :: "app_state \<Rightarrow> app_state" where
  "handleRemoveLastGarment s =
     (if currentOutfitIndex s > 0
      then s\<lparr>currentOutfitIndex := currentOutfitIndex s - 1, currentPoseIndex := 0\<rparr>
      else s)"

subsection \<open>handlePoseSelect\<close>

definition handlePoseSelect_begin :: "nat \<Rightarrow> app_state \<Rightarrow> step" where
  "handlePoseSelect_begin newIndex s =
     (if isLoading s \<or> outfitHistory s = [] \<or> newIndex = currentPoseIndex s then Returned s
      else
        let poseInstruction = at POSE_INSTRUCTIONS newIndex in
        case at (outfitHistory s) (currentOutfitIndex s) of
          None \<Rightarrow> Threw s
        | Some currentLayer \<Rightarrow>
            if truthy (prop_get (poseImages currentLayer) poseInstruction)
            then Returned (s\<lparr>currentPoseIndex := newIndex\<rparr>)
            else
              (case first_value (poseImages currentLayer) of
                 None \<Rightarrow> Returned s
               | Some baseImageForPoseChange \<Rightarrow>
                   if baseImageForPoseChange = [] then Returned s
                   else Awaiting (PoseVariation baseImageForPoseChange poseInstruction)
                          (s\<lparr>error := None, isLoading := True,
                             loadingMessage := ''Changing pose...'',
                             currentPoseIndex := newIndex\<rparr>)))"

text \<open>
  After the \<open>await\<close>. \<open>idx\<close>, \<open>poseInstruction\<close> and \<open>prevPoseIndex\<close> are the values the
  closure holds. The updater writes into the layer at \<open>idx\<close> of the history as it is when
  the updater runs; in a run of the whole handler that layer exists (it is the layer the
  synchronous part read), and the model leaves the history alone otherwise.
\<close>

definition handlePoseSelect_resume ::
  "env \<Rightarrow> nat \<Rightarrow> string option \<Rightarrow> nat \<Rightarrow> exn + string \<Rightarrow> app_state \<Rightarrow> app_state" where
  "handlePoseSelect_resume E idx poseInstruction prevPoseIndex r s =
     (let s' =
        (case r of
           Inr newImageUrl \<Rightarrow>
             s\<lparr>outfitHistory :=
                 (case at (outfitHistory s) idx of
                    None \<Rightarrow> outfitHistory s
                  | Some updatedLayer \<Rightarrow>
                      (outfitHistory s)
                        [idx := updatedLayer\<lparr>poseImages :=
                                  prop_set (poseImages updatedLayer) poseInstruction newImageUrl\<rparr>])\<rparr>
         | Inl err \<Rightarrow>
             s\<lparr>error := Some (getFriendlyErrorMessage E err ''Failed to change pose''),
               currentPoseIndex := prevPoseIndex\<rparr>)
      in s'\<lparr>isLoading := False, loadingMessage := []\<rparr>)"

definition handlePoseSelect :: "env \<Rightarrow> nat \<Rightarrow> world \<Rightarrow> world" where
  "handlePoseSelect E newIndex w =
     (case handlePoseSelect_begin newIndex (app w) of
        Returned s \<Rightarrow> w\<lparr>app := s\<rparr>
      | Threw s \<Rightarrow> w\<lparr>app := s\<rparr>
      | Awaiting c s1 \<Rightarrow>
          (case await E c (w\<lparr>app := s1\<rparr>) of
             (r, w1) \<Rightarrow>
               w1\<lparr>app := handlePoseSelect_resume E (currentOutfitIndex (app w))
                           (at POSE_INSTRUCTIONS newIndex) (currentPoseIndex (app w)) r (app w1)\<rparr>))"

subsection \<open>applyGarmentSequence and handleApplySavedOutfit\<close>

text \<open>
  The \<open>for\<close> loop of \<open>applyGarmentSequence\<close>, with its local variables \<open>baseImage\<close> and
  \<open>newLayers\<close> as arguments. \<open>wardrobe0\<close> is the wardrobe the closure captured. An id the
  wardrobe does not hold fails the \<open>if (garmentInfo)\<close> test and the loop goes on to the next
  id. A throw of \<open>urlToFile\<close> or of the generation request is caught, sets the error and
  returns from the function.
\<close>

fun applyGarmentLoop ::
  "env \<Rightarrow> WardrobeItem list \<Rightarrow> string list \<Rightarrow> string \<Rightarrow> OutfitLayer list \<Rightarrow> world \<Rightarrow> world" where
  "applyGarmentLoop E wardrobe0 [] baseImage newLayers w = w"
| "applyGarmentLoop E wardrobe0 (garmentId # rest) baseImage newLayers w =
     (case find (\<lambda>g. itemId g = garmentId) wardrobe0 of
        None \<Rightarrow> applyGarmentLoop E wardrobe0 rest baseImage newLayers w
      | Some garmentInfo \<Rightarrow>
          (case await E (UrlToFile (url garmentInfo) (name garmentInfo))
                  (w\<lparr>app := (app w)\<lparr>loadingMessage := ''Applying '' @ name garmentInfo @ ''...''\<rparr>\<rparr>) of
             (Inl err, w1) \<Rightarrow>
               w1\<lparr>app := (app w1)\<lparr>error :=
                    Some (getFriendlyErrorMessage E err (''Failed to apply '' @ name garmentInfo))\<rparr>\<rparr>
           | (Inr garmentFile, w1) \<Rightarrow>
               (case await E (TryOn baseImage garmentFile) w1 of
                  (Inl err, w2) \<Rightarrow>
                    w2\<lparr>app := (app w2)\<lparr>error :=
                         Some (getFriendlyErrorMessage E err (''Failed to apply '' @ name garmentInfo))\<rparr>\<rparr>
                | (Inr newImageUrl, w2) \<Rightarrow>
                    (let newLayers' = newLayers @
                           [\<lparr>garment = Some garmentInfo,
                             poseImages = [(prop_key (at POSE_INSTRUCTIONS 0), newImageUrl)]\<rparr>]
                     in applyGarmentLoop E wardrobe0 rest newImageUrl newLayers'
                          (w2\<lparr>app := (app w2)\<lparr>outfitHistory := newLayers',
                                               currentOutfitIndex := length newLayers' - 1\<rparr>\<rparr>)))))"

text \<open>
  \<open>outfitHistory0\<close> and \<open>wardrobe0\<close> are the values the closure captured (those of the render
  in which the user triggered the replay).
\<close>

definition applyGarmentSequence ::
  "env \<Rightarrow> OutfitLayer list \<Rightarrow> WardrobeItem list \<Rightarrow> string list \<Rightarrow> world \<Rightarrow> world" where
  "applyGarmentSequence E outfitHistory0 wardrobe0 ids w =
     (case at outfitHistory0 0 of
        None \<Rightarrow> w\<lparr>app := (app w)\<lparr>error := Some ''Base model image is not available.''\<rparr>\<rparr>
      | Some root \<Rightarrow>
          (case prop_get (poseImages root) (at POSE_INSTRUCTIONS 0) of
             None \<Rightarrow> w\<lparr>app := (app w)\<lparr>error := Some ''Base model image is not available.''\<rparr>\<rparr>
           | Some baseImage \<Rightarrow>
               if baseImage = []
               then w\<lparr>app := (app w)\<lparr>error := Some ''Base model image is not available.''\<rparr>\<rparr>
               else applyGarmentLoop E wardrobe0 ids baseImage [root] w))"

text \<open>The state while \<open>handleApplySavedOutfit\<close> waits on its 50 ms timer.\<close>

definition handleApplySavedOutfit_begin :: "SavedOutfit \<Rightarrow> app_state \<Rightarrow> app_state" where
  "handleApplySavedOutfit_begin outfit s =
     s\<lparr>error := None, isLoading := True,
       loadingMessage := ''Loading outfit: '' @ outfitName outfit,
       currentOutfitIndex := 0, currentPoseIndex := 0\<rparr>"

definition handleApplySavedOutfit :: "env \<Rightarrow> SavedOutfit \<Rightarrow> world \<Rightarrow> world" where
  "handleApplySavedOutfit E outfit w =
     (if isLoading (app w) then w
      else
        let w1 = applyGarmentSequence E (outfitHistory (app w)) (wardrobe (app w)) (garmentIds outfit)
                   (w\<lparr>app := handleApplySavedOutfit_begin outfit (app w)\<rparr>)
        in w1\<lparr>app := (app w1)\<lparr>isLoading := False, loadingMessage := []\<rparr>\<rparr>)"


section \<open>Operation sequences, well-formed states and sample data\<close>

text \<open>
  The four operations a user can trigger on the dressing screen, and a run of a list of
  them, each handler running to completion before the next starts.
\<close>

datatype operation =
    AddGarment blob WardrobeItem
  | RemoveLastGarment
  | SelectPose nat
  | ApplySavedOutfit SavedOutfit

fun perform :: "env \<Rightarrow> operation \<Rightarrow> world \<Rightarrow> world" where
  "perform E (AddGarment garmentFile garmentInfo) w = handleGarmentSelect E garmentFile garmentInfo w"
| "perform E RemoveLastGarment w = w\<lparr>app := handleRemoveLastGarment (app w)\<rparr>"
| "perform E (SelectPose newIndex) w = handlePoseSelect E newIndex w"
| "perform E (ApplySavedOutfit outfit) w = handleApplySavedOutfit E outfit w"

fun run :: "env \<Rightarrow> operation list \<Rightarrow> world \<Rightarrow> world" where
  "run E [] w = w"
| "run E (x # xs) w = run E xs (perform E x w)"

text \<open>
  A layer as the handlers build it: its pose dictionary has distinct keys, holds only
  non-empty image URLs, and has an entry for the default pose. A state is well formed
  when the position points at a layer and every layer is of that kind.
\<close>

definition wf_layer :: "OutfitLayer \<Rightarrow> bool" where
  "wf_layer l =
     (distinct (map fst (poseImages l)) \<and>
      list_all (\<lambda>p. snd p \<noteq> []) (poseImages l) \<and>
      truthy (prop_get (poseImages l) (at POSE_INSTRUCTIONS 0)))"

definition wf_state :: "app_state \<Rightarrow> bool" where
  "wf_state s =
     (currentOutfitIndex s < length (outfitHistory s) \<and> list_all wf_layer (outfitHistory s))"

text \<open>The root layer that \<open>handleModelFinalized\<close> builds from a base image, possibly with
  further pose entries behind the first one.\<close>

definition root_of :: "string \<Rightarrow> OutfitLayer \<Rightarrow> bool" where
  "root_of u l =
     (garment l = None \<and>
      (case poseImages l of [] \<Rightarrow> False | p # _ \<Rightarrow> p = (prop_key (at POSE_INSTRUCTIONS 0), u)))"

text \<open>Sample data: two garments, a service that always answers, one that always throws,
  and the state right after the model image was chosen.\<close>

definition jacket :: WardrobeItem where
  "jacket = \<lparr>itemId = ''google-cloud-jacket'', name = ''Cloud Jacket'', url = ''jacket.png'',
             brand = Some ''Google Cloud'', material = Some ''100% Recycled Polyester''\<rparr>"

definition tee :: WardrobeItem where
  "tee = \<lparr>itemId = ''gemini-tee'', name = ''Gemini Tee'', url = ''tee.png'',
          brand = Some ''Google Store'', material = Some ''100% Organic Cotton''\<rparr>"

definition E_ok :: env where
  "E_ok = \<lparr>respond = (\<lambda>log c. case c of
                          TryOn b f \<Rightarrow> Inr (b @ ''+'' @ f)
                        | PoseVariation b p \<Rightarrow> Inr (b @ ''~'')
                        | UrlToFile u n \<Rightarrow> Inr u),
           getFriendlyErrorMessage = (\<lambda>e context. context @ '': '' @ e)\<rparr>"

definition E_fail :: env where
  "E_fail = \<lparr>respond = (\<lambda>log c. Inl ''boom''),
             getFriendlyErrorMessage = (\<lambda>e context. context @ '': '' @ e)\<rparr>"

definition initial_state :: app_state where
  "initial_state =
     \<lparr>modelImageUrl = None, outfitHistory = [], currentOutfitIndex = 0, isLoading = False,
      loadingMessage = [], error = None, currentPoseIndex = 0, wardrobe = [jacket, tee]\<rparr>"

definition fresh :: world where
  "fresh = \<lparr>app = handleModelFinalized ''M0'' initial_state, calls = []\<rparr>"

definition sweat :: WardrobeItem where
  "sweat = \<lparr>itemId = ''gemini-sweat'', name = ''Gemini Sweat'', url = ''sweat.png'',
            brand = Some ''Google Store'', material = Some ''80% Cotton, 20% Polyester''\<rparr>"

text \<open>Jacket and tee added, then the tee undone: position 1 of three layers.\<close>

definition undone :: world where
  "undone = run E_ok [AddGarment ''jf'' jacket, AddGarment ''tf'' tee, RemoveLastGarment] fresh"

text \<open>The state on screen while a request to add the sweater is in flight from \<open>undone\<close>.\<close>

definition busy :: app_state where
  "busy = (app undone)\<lparr>error := None, isLoading := True, loadingMessage := ''Adding Gemini Sweat...''\<rparr>"

text \<open>The jacket is on, and the side profile has been rendered and is on display.\<close>

definition posed :: world where
  "posed = run E_ok [AddGarment ''jf'' jacket, SelectPose 2] fresh"

definition look :: SavedOutfit where
  "look = \<lparr>outfitId = ''outfit-1'', outfitName = ''Look'',
           garmentIds = [''google-cloud-jacket'', ''gemini-tee''], previewUrl = ''preview.png''\<rparr>"

text \<open>A service that delivers garment files but refuses every generation, and an outfit
  none of whose ids is in the wardrobe.\<close>

definition E_nogen :: env where
  "E_nogen = \<lparr>respond = (\<lambda>log c. case c of UrlToFile u n \<Rightarrow> Inr u | _ \<Rightarrow> Inl ''refused''),
              getFriendlyErrorMessage = (\<lambda>e context. context @ '': '' @ e)\<rparr>"

definition ghosts :: SavedOutfit where
  "ghosts = \<lparr>outfitId = ''outfit-2'', outfitName = ''Gone'',
             garmentIds = [''ghost''], previewUrl = ''preview.png''\<rparr>"

definition root_inv :: "string \<Rightarrow> app_state \<Rightarrow> bool" where
  "root_inv u s = (case outfitHistory s of [] \<Rightarrow> False | l # _ \<Rightarrow> root_of u l)"


section \<open>Basic facts\<close>

lemma at_Nil [simp]: "at [] i = None"
  by (simp add: at_def)

lemma at_Cons_0 [simp]: "at (x # xs) 0 = Some x"
  by (simp add: at_def)

lemma at_Cons_Suc [simp]: "at (x # xs) (Suc i) = at xs i"
  by (simp add: at_def)

lemma at_length [simp]: "at xs (length xs) = None"
  by (simp add: at_def)

lemma at_Some_iff: "at xs i = Some x \<longleftrightarrow> i < length xs \<and> xs ! i = x"
  by (auto simp: at_def)

lemma at_None_iff: "at xs i = None \<longleftrightarrow> length xs \<le> i"
  by (auto simp: at_def)


lemmas handler_defs =
  handleModelFinalized_def handleGarmentSelect_def handleGarmentSelect_begin_def
  handleGarmentSelect_resume_def handleRemoveLastGarment_def handlePoseSelect_def
  handlePoseSelect_begin_def handlePoseSelect_resume_def applyGarmentSequence_def
  handleApplySavedOutfit_begin_def handleApplySavedOutfit_def await_def displayImageUrl_def
  prop_get_def prop_set_def prop_key_def first_value_def truthy_def

lemma fresh_eq:
  "fresh =
     \<lparr>app = \<lparr>modelImageUrl = Some ''M0'',
              outfitHistory = [\<lparr>garment = None, poseImages = [(''Full frontal view, hands on hips'', ''M0'')]\<rparr>],
              currentOutfitIndex = 0, isLoading = False, loadingMessage = [], error = None,
              currentPoseIndex = 0, wardrobe = [jacket, tee]\<rparr>,
      calls = []\<rparr>"
  by (simp add: fresh_def handleModelFinalized_def initial_state_def prop_key_def POSE_INSTRUCTIONS_def)

lemma undone_eq:
  "undone =
     \<lparr>app = \<lparr>modelImageUrl = Some ''M0'',
              outfitHistory =
                [\<lparr>garment = None, poseImages = [(''Full frontal view, hands on hips'', ''M0'')]\<rparr>,
                 \<lparr>garment = Some jacket, poseImages = [(''Full frontal view, hands on hips'', ''M0+jf'')]\<rparr>,
                 \<lparr>garment = Some tee, poseImages = [(''Full frontal view, hands on hips'', ''M0+jf+tf'')]\<rparr>],
              currentOutfitIndex = 1, isLoading = False, loadingMessage = [], error = None,
              currentPoseIndex = 0, wardrobe = [jacket, tee]\<rparr>,
      calls = [TryOn ''M0'' ''jf'', TryOn ''M0+jf'' ''tf'']\<rparr>"
  by (simp add: undone_def fresh_eq handler_defs E_ok_def POSE_INSTRUCTIONS_def jacket_def tee_def)

section \<open>AddGarment\<close>

text \<open>
  C4. Given a history of length \<open>n\<close> at position \<open>n - 1\<close>, an \<open>AddGarment\<close> whose
  generation request fails leaves the history as it was (so its length is still \<open>n\<close> and
  no layer was appended) and the position at \<open>n - 1\<close>.
\<close>

theorem C4_failed_add_keeps_history_and_position:
  assumes "length (outfitHistory (app w)) = n"
    and "currentOutfitIndex (app w) = n - 1"
    and "\<And>c. generation_call c \<Longrightarrow> isl (respond E (calls w) c)"
  shows "outfitHistory (app (handleGarmentSelect E garmentFile garmentInfo w)) = outfitHistory (app w)
       \<and> length (outfitHistory (app (handleGarmentSelect E garmentFile garmentInfo w))) = n
       \<and> currentOutfitIndex (app (handleGarmentSelect E garmentFile garmentInfo w)) = n - 1"
proof -
  have no_next: "at (outfitHistory (app w)) (currentOutfitIndex (app w) + 1) = None"
    using assms(1,2) by (simp add: at_None_iff)
  have fails: "respond E (calls w) (TryOn img garmentFile) \<noteq> Inr v" for img v
    using assms(3) [of "TryOn img garmentFile"] by (auto simp: generation_call_def)
  show ?thesis
    using assms(1,2) no_next fails
    by (auto simp: handleGarmentSelect_def handleGarmentSelect_begin_def
          handleGarmentSelect_resume_def await_def Let_def
          split: option.splits sum.splits)
qed

theorem C4_witness:
  "length (outfitHistory (app fresh)) = 1
   \<and> currentOutfitIndex (app fresh) = 1 - 1
   \<and> (\<forall>c. isl (respond E_fail (calls fresh) c))
   \<and> calls (handleGarmentSelect E_fail ''f'' jacket fresh) = [TryOn ''M0'' ''f'']
   \<and> error (app (handleGarmentSelect E_fail ''f'' jacket fresh)) \<noteq> None
   \<and> length (outfitHistory (app (handleGarmentSelect E_fail ''f'' jacket fresh))) = 1
   \<and> currentOutfitIndex (app (handleGarmentSelect E_fail ''f'' jacket fresh)) = 1 - 1"
proof -
  have h1: "length (outfitHistory (app fresh)) = 1"
    by (simp add: fresh_def handleModelFinalized_def initial_state_def)
  have h2: "currentOutfitIndex (app fresh) = 1 - 1"
    by (simp add: fresh_def handleModelFinalized_def initial_state_def)
  have h3: "generation_call c \<Longrightarrow> isl (respond E_fail (calls fresh) c)" for c
    by (simp add: E_fail_def)
  have run: "calls (handleGarmentSelect E_fail ''f'' jacket fresh) = [TryOn ''M0'' ''f'']
     \<and> error (app (handleGarmentSelect E_fail ''f'' jacket fresh)) \<noteq> None"
    by (simp add: handleGarmentSelect_def handleGarmentSelect_begin_def
          handleGarmentSelect_resume_def await_def displayImageUrl_def fresh_def
          handleModelFinalized_def initial_state_def E_fail_def prop_get_def prop_key_def
          POSE_INSTRUCTIONS_def)
  from C4_failed_add_keeps_history_and_position [OF h1 h2 h3, where garmentFile = "''f''" and garmentInfo = jacket]
  show ?thesis using h1 h2 run by (simp add: E_fail_def)
qed

text \<open>
  C6. Branch overwrite. The position is \<open>i\<close> with at least one layer behind it in the
  redo buffer, and the garment \<open>H\<close> has an id different from that of layer \<open>i + 1\<close>. A
  successful \<open>AddGarment(H)\<close> yields the first \<open>i + 1\<close> layers followed by the new layer
  for \<open>H\<close>: the stack has length \<open>i + 2\<close>, the new layer is at position \<open>i + 1\<close>, which
  is the new position, and the former layers from \<open>i + 1\<close> on are gone.
\<close>

theorem C6_branch_overwrite:
  assumes "\<not> isLoading (app w)"
    and "currentOutfitIndex (app w) = i"
    and "i + 1 < length (outfitHistory (app w))"
    and "\<And>g. garment (outfitHistory (app w) ! (i + 1)) = Some g \<Longrightarrow> itemId g \<noteq> itemId H"
    and "displayImageUrl (app w) = Some img" and "img \<noteq> []"
    and "respond E (calls w) (TryOn img garmentFile) = Inr newImageUrl"
  shows "outfitHistory (app (handleGarmentSelect E garmentFile H w)) =
           take (i + 1) (outfitHistory (app w)) @
           [\<lparr>garment = Some H, poseImages = [(prop_key (at POSE_INSTRUCTIONS 0), newImageUrl)]\<rparr>]
       \<and> length (outfitHistory (app (handleGarmentSelect E garmentFile H w))) = i + 2
       \<and> currentOutfitIndex (app (handleGarmentSelect E garmentFile H w)) = i + 1
       \<and> outfitHistory (app (handleGarmentSelect E garmentFile H w)) ! (i + 1) =
           \<lparr>garment = Some H, poseImages = [(prop_key (at POSE_INSTRUCTIONS 0), newImageUrl)]\<rparr>"
proof -
  let ?h = "outfitHistory (app w)"
  have nxt: "at ?h (currentOutfitIndex (app w) + 1) = Some (?h ! (i + 1))"
    using assms(2,3) by (simp add: at_def)
  have miss: "\<not> (case garment (?h ! (i + 1)) of None \<Rightarrow> False | Some g \<Rightarrow> itemId g = itemId H)"
    using assms(4) by (auto split: option.splits)
  have step: "handleGarmentSelect_begin garmentFile H (app w) =
      Awaiting (TryOn img garmentFile)
        ((app w)\<lparr>error := None, isLoading := True, loadingMessage := ''Adding '' @ name H @ ''...''\<rparr>)"
    using assms(1,5,6) nxt miss by (simp add: handleGarmentSelect_begin_def)
  have hist: "outfitHistory (app (handleGarmentSelect E garmentFile H w)) =
      take (i + 1) ?h @
      [\<lparr>garment = Some H, poseImages = [(prop_key (at POSE_INSTRUCTIONS 0), newImageUrl)]\<rparr>]"
    using assms(2,7) by (simp add: handleGarmentSelect_def step handleGarmentSelect_resume_def await_def)
  have pos: "currentOutfitIndex (app (handleGarmentSelect E garmentFile H w)) = i + 1"
    using assms(2,7) by (simp add: handleGarmentSelect_def step handleGarmentSelect_resume_def await_def)
  have len: "length (take (i + 1) ?h) = i + 1"
    using assms(3) by simp
  show ?thesis
    unfolding hist pos using len by (simp add: nth_append)
qed

theorem C6_witness:
  "\<not> isLoading (app undone)
   \<and> currentOutfitIndex (app undone) = 1
   \<and> 1 + 1 < length (outfitHistory (app undone))
   \<and> garment (outfitHistory (app undone) ! (1 + 1)) = Some tee \<and> itemId tee \<noteq> itemId sweat
   \<and> displayImageUrl (app undone) = Some ''M0+jf'' \<and> ''M0+jf'' \<noteq> []
   \<and> respond E_ok (calls undone) (TryOn ''M0+jf'' ''sf'') = Inr ''M0+jf+sf''
   \<and> outfitHistory (app (handleGarmentSelect E_ok ''sf'' sweat undone)) =
        take (1 + 1) (outfitHistory (app undone)) @
        [\<lparr>garment = Some sweat, poseImages = [(prop_key (at POSE_INSTRUCTIONS 0), ''M0+jf+sf'')]\<rparr>]
   \<and> length (outfitHistory (app (handleGarmentSelect E_ok ''sf'' sweat undone))) = 1 + 2
   \<and> currentOutfitIndex (app (handleGarmentSelect E_ok ''sf'' sweat undone)) = 1 + 1"
proof -
  have h1: "\<not> isLoading (app undone)" by (simp add: undone_eq)
  have h2: "currentOutfitIndex (app undone) = 1" by (simp add: undone_eq)
  have h3: "1 + 1 < length (outfitHistory (app undone))" by (simp add: undone_eq)
  have h4: "garment (outfitHistory (app undone) ! (1 + 1)) = Some g \<Longrightarrow> itemId g \<noteq> itemId sweat" for g
    by (auto simp: undone_eq tee_def sweat_def)
  have h5: "displayImageUrl (app undone) = Some ''M0+jf''"
    by (simp add: undone_eq displayImageUrl_def prop_get_def prop_key_def POSE_INSTRUCTIONS_def)
  have h6: "''M0+jf'' \<noteq> []" by simp
  have h7: "respond E_ok (calls undone) (TryOn ''M0+jf'' ''sf'') = Inr ''M0+jf+sf''"
    by (simp add: E_ok_def)
  from C6_branch_overwrite [OF h1 h2 h3 h4 h5 h6 h7]
  show ?thesis using h1 h2 h3 h5 h7 by (simp add: undone_eq tee_def sweat_def)
qed

section \<open>The busy flag\<close>

text \<open>Three of the four mutating handlers test \<open>isLoading\<close> first and do nothing when it is set.\<close>

lemma handleGarmentSelect_busy:
  "isLoading (app w) \<Longrightarrow> handleGarmentSelect E garmentFile garmentInfo w = w"
  by (simp add: handleGarmentSelect_def handleGarmentSelect_begin_def split: option.splits)

lemma handlePoseSelect_busy:
  "isLoading (app w) \<Longrightarrow> handlePoseSelect E newIndex w = w"
  by (simp add: handlePoseSelect_def handlePoseSelect_begin_def)

lemma handleApplySavedOutfit_busy:
  "isLoading (app w) \<Longrightarrow> handleApplySavedOutfit E outfit w = w"
  by (simp add: handleApplySavedOutfit_def)

lemma busy_eq:
  "busy =
     \<lparr>modelImageUrl = Some ''M0'',
      outfitHistory =
        [\<lparr>garment = None, poseImages = [(''Full frontal view, hands on hips'', ''M0'')]\<rparr>,
         \<lparr>garment = Some jacket, poseImages = [(''Full frontal view, hands on hips'', ''M0+jf'')]\<rparr>,
         \<lparr>garment = Some tee, poseImages = [(''Full frontal view, hands on hips'', ''M0+jf+tf'')]\<rparr>],
      currentOutfitIndex = 1, isLoading = True, loadingMessage = ''Adding Gemini Sweat...'',
      error = None, currentPoseIndex = 0, wardrobe = [jacket, tee]\<rparr>"
  by (simp add: busy_def undone_eq)

text \<open>
  C2. \<open>handleRemoveLastGarment\<close> does not test the flag. While the request to add the
  sweater is in flight (position 1 of three layers, \<open>isLoading\<close> set), removing the last
  garment moves the position to 0. When the request then succeeds, its continuation
  appends the sweater after the two layers it had captured and advances the position by
  one from where it now is: the position is 1, the jacket, while the new sweater layer
  sits at position 2.
\<close>

theorem C2_remove_while_busy_moves_position:
  "handleGarmentSelect_begin ''sf'' sweat (app undone) = Awaiting (TryOn ''M0+jf'' ''sf'') busy
   \<and> isLoading busy
   \<and> currentOutfitIndex busy = 1
   \<and> currentOutfitIndex (handleRemoveLastGarment busy) = 0
   \<and> currentOutfitIndex
        (handleGarmentSelect_resume E_ok 1 sweat (Inr ''M0+jf+sf'') (handleRemoveLastGarment busy)) = 1
   \<and> map garment (outfitHistory
        (handleGarmentSelect_resume E_ok 1 sweat (Inr ''M0+jf+sf'') (handleRemoveLastGarment busy)))
      = [None, Some jacket, Some sweat]"
proof -
  have a: "handleGarmentSelect_begin ''sf'' sweat (app undone) = Awaiting (TryOn ''M0+jf'' ''sf'') busy"
    by (simp add: busy_eq undone_eq handleGarmentSelect_begin_def displayImageUrl_def prop_get_def
          prop_key_def POSE_INSTRUCTIONS_def tee_def sweat_def)
  have b: "isLoading busy \<and> currentOutfitIndex busy = 1
      \<and> currentOutfitIndex (handleRemoveLastGarment busy) = 0"
    by (simp add: busy_eq handleRemoveLastGarment_def)
  have c: "currentOutfitIndex
        (handleGarmentSelect_resume E_ok 1 sweat (Inr ''M0+jf+sf'') (handleRemoveLastGarment busy)) = 1"
    by (simp add: busy_eq handleRemoveLastGarment_def handleGarmentSelect_resume_def)
  have d: "map garment (outfitHistory
        (handleGarmentSelect_resume E_ok 1 sweat (Inr ''M0+jf+sf'') (handleRemoveLastGarment busy)))
      = [None, Some jacket, Some sweat]"
    by (simp add: busy_eq handleRemoveLastGarment_def handleGarmentSelect_resume_def)
  show ?thesis using a b c d by simp
qed

section \<open>SelectPose\<close>

lemma wf_layer_nonempty:
  assumes "wf_layer l"
  shows "\<exists>k v ps. poseImages l = (k, v) # ps \<and> v \<noteq> []"
proof (cases "poseImages l")
  case Nil
  with assms show ?thesis by (simp add: wf_layer_def truthy_def prop_get_def)
next
  case (Cons p ps)
  with assms show ?thesis by (cases p) (simp add: wf_layer_def)
qed

lemma wf_layer_cached_truthy:
  assumes "wf_layer l" and "prop_get (poseImages l) k = Some v"
  shows "v \<noteq> []"
proof -
  from assms(2) have "(prop_key k, v) \<in> set (poseImages l)"
    by (simp add: prop_get_def map_of_SomeD)
  moreover from assms(1) have "\<forall>p \<in> set (poseImages l). snd p \<noteq> []"
    by (simp add: wf_layer_def list_all_iff)
  ultimately show ?thesis by fastforce
qed

text \<open>
  C8. \<open>SelectPose\<close>, called when nothing is in flight, on a current layer whose pose
  dictionary is well formed. If the dictionary holds the pose, no request is issued and
  the active pose pointer is the new pose. If it does not (and the pose is not the active
  one), exactly one request is issued, and its base image is the first entry of the
  dictionary, whatever image is on display.
\<close>

theorem C8_pose_hit_and_miss:
  assumes "\<not> isLoading (app w)"
    and "at (outfitHistory (app w)) (currentOutfitIndex (app w)) = Some layer"
    and "wf_layer layer"
    and "first_value (poseImages layer) = Some representative"
  shows "(prop_get (poseImages layer) (at POSE_INSTRUCTIONS newIndex) \<noteq> None \<longrightarrow>
            calls (handlePoseSelect E newIndex w) = calls w
          \<and> currentPoseIndex (app (handlePoseSelect E newIndex w)) = newIndex)
       \<and> (prop_get (poseImages layer) (at POSE_INSTRUCTIONS newIndex) = None \<longrightarrow>
          newIndex \<noteq> currentPoseIndex (app w) \<longrightarrow>
            calls (handlePoseSelect E newIndex w) =
              calls w @ [PoseVariation representative (at POSE_INSTRUCTIONS newIndex)])"
proof -
  have ne: "outfitHistory (app w) \<noteq> []"
    using assms(2) by auto
  have part1: "calls (handlePoseSelect E newIndex w) = calls w
      \<and> currentPoseIndex (app (handlePoseSelect E newIndex w)) = newIndex"
    if hit: "prop_get (poseImages layer) (at POSE_INSTRUCTIONS newIndex) \<noteq> None"
  proof -
    from hit obtain v where v: "prop_get (poseImages layer) (at POSE_INSTRUCTIONS newIndex) = Some v"
      by auto
    with assms(3) have "v \<noteq> []" by (rule wf_layer_cached_truthy)
    with v have t: "truthy (prop_get (poseImages layer) (at POSE_INSTRUCTIONS newIndex))"
      by (simp add: truthy_def)
    from assms(1,2) t ne
    have "handlePoseSelect_begin newIndex (app w) =
            (if newIndex = currentPoseIndex (app w) then Returned (app w)
             else Returned ((app w)\<lparr>currentPoseIndex := newIndex\<rparr>))"
      by (simp add: handlePoseSelect_begin_def)
    then show ?thesis
      by (simp add: handlePoseSelect_def)
  qed
  have part2: "calls (handlePoseSelect E newIndex w) =
      calls w @ [PoseVariation representative (at POSE_INSTRUCTIONS newIndex)]"
    if miss: "prop_get (poseImages layer) (at POSE_INSTRUCTIONS newIndex) = None"
      and other: "newIndex \<noteq> currentPoseIndex (app w)"
  proof -
    from assms(3) obtain k v ps where ps: "poseImages layer = (k, v) # ps" and v: "v \<noteq> []"
      using wf_layer_nonempty by blast
    with assms(4) have rep: "representative = v"
      by (simp add: first_value_def)
    from assms(1,2) miss other ne ps v rep
    have "handlePoseSelect_begin newIndex (app w) =
            Awaiting (PoseVariation representative (at POSE_INSTRUCTIONS newIndex))
              ((app w)\<lparr>error := None, isLoading := True, loadingMessage := ''Changing pose...'',
                       currentPoseIndex := newIndex\<rparr>)"
      by (simp add: handlePoseSelect_begin_def truthy_def first_value_def)
    then show ?thesis
      by (simp add: handlePoseSelect_def await_def)
  qed
  show ?thesis using part1 part2 by blast
qed

lemma posed_eq:
  "posed =
     \<lparr>app = \<lparr>modelImageUrl = Some ''M0'',
              outfitHistory =
                [\<lparr>garment = None, poseImages = [(''Full frontal view, hands on hips'', ''M0'')]\<rparr>,
                 \<lparr>garment = Some jacket,
                  poseImages = [(''Full frontal view, hands on hips'', ''M0+jf''),
                                (''Side profile view'', ''M0+jf~'')]\<rparr>],
              currentOutfitIndex = 1, isLoading = False, loadingMessage = [], error = None,
              currentPoseIndex = 2, wardrobe = [jacket, tee]\<rparr>,
      calls = [TryOn ''M0'' ''jf'', PoseVariation ''M0+jf'' (Some ''Side profile view'')]\<rparr>"
  by (simp add: posed_def fresh_eq handler_defs E_ok_def POSE_INSTRUCTIONS_def jacket_def at_def)

theorem C8_witness:
  "\<not> isLoading (app posed)
   \<and> at (outfitHistory (app posed)) (currentOutfitIndex (app posed)) =
       Some \<lparr>garment = Some jacket,
             poseImages = [(''Full frontal view, hands on hips'', ''M0+jf''),
                           (''Side profile view'', ''M0+jf~'')]\<rparr>
   \<and> displayImageUrl (app posed) = Some ''M0+jf~''
   \<and> calls (handlePoseSelect E_ok 0 posed) = calls posed
   \<and> currentPoseIndex (app (handlePoseSelect E_ok 0 posed)) = 0
   \<and> calls (handlePoseSelect E_ok 1 posed) =
       calls posed @ [PoseVariation ''M0+jf'' (Some ''Slightly turned, 3/4 view'')]"
proof -
  let ?layer = "\<lparr>garment = Some jacket,
             poseImages = [(''Full frontal view, hands on hips'', ''M0+jf''),
                           (''Side profile view'', ''M0+jf~'')]\<rparr>"
  have h1: "\<not> isLoading (app posed)" by (simp add: posed_eq)
  have h2: "at (outfitHistory (app posed)) (currentOutfitIndex (app posed)) = Some ?layer"
    by (simp add: posed_eq)
  have h3: "wf_layer ?layer"
    by (simp add: wf_layer_def truthy_def prop_get_def prop_key_def POSE_INSTRUCTIONS_def)
  have h4: "first_value (poseImages ?layer) = Some ''M0+jf''"
    by (simp add: first_value_def)
  have d: "displayImageUrl (app posed) = Some ''M0+jf~''"
    by (simp add: posed_eq displayImageUrl_def prop_get_def prop_key_def POSE_INSTRUCTIONS_def at_def)
  have k0: "prop_get (poseImages ?layer) (at POSE_INSTRUCTIONS 0) \<noteq> None"
    by (simp add: prop_get_def prop_key_def POSE_INSTRUCTIONS_def)
  have k1: "prop_get (poseImages ?layer) (at POSE_INSTRUCTIONS 1) = None"
    by (simp add: prop_get_def prop_key_def POSE_INSTRUCTIONS_def at_def)
  have p1: "at POSE_INSTRUCTIONS 1 = Some ''Slightly turned, 3/4 view''"
    by (simp add: POSE_INSTRUCTIONS_def at_def)
  have c: "(1::nat) \<noteq> currentPoseIndex (app posed)" by (simp add: posed_eq)
  from C8_pose_hit_and_miss [OF h1 h2 h3 h4, of 0 E_ok] k0
  have r0: "calls (handlePoseSelect E_ok 0 posed) = calls posed
      \<and> currentPoseIndex (app (handlePoseSelect E_ok 0 posed)) = 0"
    by blast
  from C8_pose_hit_and_miss [OF h1 h2 h3 h4, of 1 E_ok] k1 c p1
  have r1: "calls (handlePoseSelect E_ok 1 posed) =
       calls posed @ [PoseVariation ''M0+jf'' (Some ''Slightly turned, 3/4 view'')]"
    by simp
  show ?thesis using h1 h2 d r0 r1 by simp
qed

text \<open>
  C9. A \<open>SelectPose\<close> that misses the dictionary of the current layer (whose first image
  is non-empty) shows the new pose as active while its request is in flight. If the
  request fails, the active pose is again what it was before the call, the history and
  with it the dictionary of the current layer are unchanged, the dictionary still has no
  entry for the pose, and the error is shown.
\<close>

theorem C9_pose_miss_failure_reverts:
  assumes "\<not> isLoading (app w)"
    and "newIndex \<noteq> currentPoseIndex (app w)"
    and "at (outfitHistory (app w)) (currentOutfitIndex (app w)) = Some layer"
    and "prop_get (poseImages layer) (at POSE_INSTRUCTIONS newIndex) = None"
    and "first_value (poseImages layer) = Some base" and "base \<noteq> []"
    and "respond E (calls w) (PoseVariation base (at POSE_INSTRUCTIONS newIndex)) = Inl err"
  shows "handlePoseSelect_begin newIndex (app w) =
           Awaiting (PoseVariation base (at POSE_INSTRUCTIONS newIndex))
             ((app w)\<lparr>error := None, isLoading := True, loadingMessage := ''Changing pose...'',
                      currentPoseIndex := newIndex\<rparr>)
       \<and> currentPoseIndex (app (handlePoseSelect E newIndex w)) = currentPoseIndex (app w)
       \<and> outfitHistory (app (handlePoseSelect E newIndex w)) = outfitHistory (app w)
       \<and> at (outfitHistory (app (handlePoseSelect E newIndex w))) (currentOutfitIndex (app w)) = Some layer
       \<and> currentOutfitIndex (app (handlePoseSelect E newIndex w)) = currentOutfitIndex (app w)
       \<and> error (app (handlePoseSelect E newIndex w)) =
           Some (getFriendlyErrorMessage E err ''Failed to change pose'')
       \<and> \<not> isLoading (app (handlePoseSelect E newIndex w))"
proof -
  have ne: "outfitHistory (app w) \<noteq> []"
    using assms(3) by auto
  have step: "handlePoseSelect_begin newIndex (app w) =
           Awaiting (PoseVariation base (at POSE_INSTRUCTIONS newIndex))
             ((app w)\<lparr>error := None, isLoading := True, loadingMessage := ''Changing pose...'',
                      currentPoseIndex := newIndex\<rparr>)"
    using assms(1-6) ne by (simp add: handlePoseSelect_begin_def truthy_def)
  show ?thesis
    using assms(3,7) by (simp add: step handlePoseSelect_def handlePoseSelect_resume_def await_def)
qed

theorem C9_witness:
  "\<not> isLoading (app posed)
   \<and> 1 \<noteq> currentPoseIndex (app posed)
   \<and> respond E_fail (calls posed) (PoseVariation ''M0+jf'' (at POSE_INSTRUCTIONS 1)) = Inl ''boom''
   \<and> currentPoseIndex (app posed) = 2
   \<and> currentPoseIndex (app (handlePoseSelect E_fail 1 posed)) = 2
   \<and> outfitHistory (app (handlePoseSelect E_fail 1 posed)) = outfitHistory (app posed)
   \<and> error (app (handlePoseSelect E_fail 1 posed)) = Some ''Failed to change pose: boom''"
proof -
  let ?layer = "\<lparr>garment = Some jacket,
             poseImages = [(''Full frontal view, hands on hips'', ''M0+jf''),
                           (''Side profile view'', ''M0+jf~'')]\<rparr>"
  have h1: "\<not> isLoading (app posed)" by (simp add: posed_eq)
  have h2: "1 \<noteq> currentPoseIndex (app posed)" by (simp add: posed_eq)
  have h3: "at (outfitHistory (app posed)) (currentOutfitIndex (app posed)) = Some ?layer"
    by (simp add: posed_eq)
  have h4: "prop_get (poseImages ?layer) (at POSE_INSTRUCTIONS 1) = None"
    by (simp add: prop_get_def prop_key_def POSE_INSTRUCTIONS_def at_def)
  have h5: "first_value (poseImages ?layer) = Some ''M0+jf''"
    by (simp add: first_value_def)
  have h6: "''M0+jf'' \<noteq> []" by simp
  have h7: "respond E_fail (calls posed) (PoseVariation ''M0+jf'' (at POSE_INSTRUCTIONS 1)) = Inl ''boom''"
    by (simp add: E_fail_def)
  have p: "currentPoseIndex (app posed) = 2" by (simp add: posed_eq)
  from C9_pose_miss_failure_reverts [OF h1 h2 h3 h4 h5 h6 h7]
  show ?thesis using h1 h2 h7 p by (simp add: E_fail_def)
qed

section \<open>Redo\<close>

lemma add_advanced:
  assumes "currentOutfitIndex (app (handleGarmentSelect E garmentFile G w)) = currentOutfitIndex (app w) + 1"
    and "currentOutfitIndex (app w) < length (outfitHistory (app w))"
  shows "\<not> isLoading (app (handleGarmentSelect E garmentFile G w))"
    and "currentPoseIndex (app (handleGarmentSelect E garmentFile G w)) = 0"
    and "\<exists>L g. at (outfitHistory (app (handleGarmentSelect E garmentFile G w))) (currentOutfitIndex (app w) + 1) = Some L
          \<and> garment L = Some g \<and> itemId g = itemId G"
    and "at (outfitHistory (app (handleGarmentSelect E garmentFile G w))) (currentOutfitIndex (app w)) =
          Some (outfitHistory (app w) ! currentOutfitIndex (app w))"
  using assms
  by (auto simp: handleGarmentSelect_def handleGarmentSelect_begin_def handleGarmentSelect_resume_def
        await_def at_def nth_append
        split: option.splits sum.splits if_splits)

lemma display_default:
  assumes "at (outfitHistory s) (currentOutfitIndex s) = Some l"
    and "wf_layer l" and "currentPoseIndex s = 0"
  shows "\<exists>img. displayImageUrl s = Some img \<and> img \<noteq> []"
proof -
  from assms(2) obtain v where "prop_get (poseImages l) (at POSE_INSTRUCTIONS 0) = Some v" "v \<noteq> []"
    by (auto simp: wf_layer_def truthy_def split: option.splits)
  moreover have "outfitHistory s \<noteq> []" using assms(1) by auto
  ultimately show ?thesis
    using assms(1,3) by (simp add: displayImageUrl_def)
qed

text \<open>
  C5. Idempotence of redo. From a well-formed state, \<open>AddGarment(G)\<close> takes effect (the
  position advances, by a redo hit or by a successful generation), then
  \<open>RemoveLastGarment\<close>, then \<open>AddGarment\<close> of a garment with the same id. The second
  \<open>AddGarment\<close> records no request, and the state after it is the state right after the
  first one, in every state cell.
\<close>

theorem C5_redo_is_idempotent:
  fixes E :: env and w :: world and G G' :: WardrobeItem and garmentFile garmentFile' :: blob
  defines "w1 \<equiv> handleGarmentSelect E garmentFile G w"
  defines "w2 \<equiv> w1\<lparr>app := handleRemoveLastGarment (app w1)\<rparr>"
  assumes wf: "wf_state (app w)"
    and adv: "currentOutfitIndex (app w1) = currentOutfitIndex (app w) + 1"
    and same: "itemId G' = itemId G"
  shows "calls (handleGarmentSelect E garmentFile' G' w2) = calls w2
       \<and> handleGarmentSelect E garmentFile' G' w2 = w1"
proof -
  let ?i = "currentOutfitIndex (app w)"
  let ?l = "outfitHistory (app w) ! ?i"
  have inr: "?i < length (outfitHistory (app w))" and wfl: "wf_layer ?l"
    using wf by (auto simp: wf_state_def list_all_length)
  have A: "\<not> isLoading (app w1)" and B: "currentPoseIndex (app w1) = 0"
    and D: "at (outfitHistory (app w1)) ?i = Some ?l"
    using add_advanced [OF adv [unfolded w1_def] inr] by (simp_all add: w1_def)
  obtain L g where C: "at (outfitHistory (app w1)) (?i + 1) = Some L"
      "garment L = Some g" "itemId g = itemId G"
    using add_advanced(3) [OF adv [unfolded w1_def] inr] unfolding w1_def by blast
  have s2: "app w2 = (app w1)\<lparr>currentOutfitIndex := ?i, currentPoseIndex := 0\<rparr>"
    using adv by (simp add: w2_def handleRemoveLastGarment_def)
  have "at (outfitHistory (app w2)) (currentOutfitIndex (app w2)) = Some ?l"
    using D by (simp add: s2)
  from display_default [OF this wfl]
  obtain img where img: "displayImageUrl (app w2) = Some img" "img \<noteq> []"
    by (auto simp: s2)
  have hit: "handleGarmentSelect_begin garmentFile' G' (app w2) =
      Returned ((app w2)\<lparr>currentOutfitIndex := ?i + 1, currentPoseIndex := 0\<rparr>)"
    using img A C same by (simp add: handleGarmentSelect_begin_def s2)
  have restore: "(app w2)\<lparr>currentOutfitIndex := ?i + 1, currentPoseIndex := 0\<rparr> = app w1"
    using adv B by (simp add: s2)
  have "handleGarmentSelect E garmentFile' G' w2 = w2\<lparr>app := app w1\<rparr>"
    using restore by (simp add: handleGarmentSelect_def hit)
  also have "w2\<lparr>app := app w1\<rparr> = w1"
    by (simp add: w2_def)
  finally have res: "handleGarmentSelect E garmentFile' G' w2 = w1" .
  have "calls w2 = calls w1" by (simp add: w2_def)
  with res show ?thesis by simp
qed

theorem C5_witness:
  "wf_state (app fresh)
   \<and> currentOutfitIndex (app (handleGarmentSelect E_ok ''jf'' jacket fresh)) = currentOutfitIndex (app fresh) + 1
   \<and> calls (handleGarmentSelect E_ok ''jf'' jacket fresh) = [TryOn ''M0'' ''jf'']
   \<and> calls (handleGarmentSelect E_ok ''again'' jacket
        ((handleGarmentSelect E_ok ''jf'' jacket fresh)
           \<lparr>app := handleRemoveLastGarment (app (handleGarmentSelect E_ok ''jf'' jacket fresh))\<rparr>))
       = [TryOn ''M0'' ''jf'']
   \<and> handleGarmentSelect E_ok ''again'' jacket
        ((handleGarmentSelect E_ok ''jf'' jacket fresh)
           \<lparr>app := handleRemoveLastGarment (app (handleGarmentSelect E_ok ''jf'' jacket fresh))\<rparr>)
       = handleGarmentSelect E_ok ''jf'' jacket fresh"
proof -
  have h1: "wf_state (app fresh)"
    by (simp add: fresh_eq wf_state_def wf_layer_def truthy_def prop_get_def prop_key_def
          POSE_INSTRUCTIONS_def)
  have run1: "handleGarmentSelect E_ok ''jf'' jacket fresh =
     \<lparr>app = \<lparr>modelImageUrl = Some ''M0'',
              outfitHistory =
                [\<lparr>garment = None, poseImages = [(''Full frontal view, hands on hips'', ''M0'')]\<rparr>,
                 \<lparr>garment = Some jacket, poseImages = [(''Full frontal view, hands on hips'', ''M0+jf'')]\<rparr>],
              currentOutfitIndex = 1, isLoading = False, loadingMessage = [], error = None,
              currentPoseIndex = 0, wardrobe = [jacket, tee]\<rparr>,
      calls = [TryOn ''M0'' ''jf'']\<rparr>"
    by (simp add: fresh_eq handler_defs E_ok_def POSE_INSTRUCTIONS_def jacket_def)
  have h2: "currentOutfitIndex (app (handleGarmentSelect E_ok ''jf'' jacket fresh)) =
      currentOutfitIndex (app fresh) + 1"
    by (simp add: run1) (simp add: fresh_eq)
  have h3: "itemId jacket = itemId jacket" by simp
  have c: "calls ((handleGarmentSelect E_ok ''jf'' jacket fresh)
           \<lparr>app := handleRemoveLastGarment (app (handleGarmentSelect E_ok ''jf'' jacket fresh))\<rparr>)
       = [TryOn ''M0'' ''jf'']"
    by (simp add: run1)
  from C5_redo_is_idempotent [OF h1 h2 h3, of "''again''"]
  show ?thesis using h1 h2 c by (simp add: run1)
qed

section \<open>Replay\<close>

text \<open>An id is resolved when the wardrobe holds a garment with it.\<close>

lemma applyGarmentLoop_skips_unresolved:
  "applyGarmentLoop E wardrobe0 ids baseImage newLayers w =
   applyGarmentLoop E wardrobe0
     (filter (\<lambda>i. find (\<lambda>g. itemId g = i) wardrobe0 \<noteq> None) ids) baseImage newLayers w"
proof (induction ids arbitrary: baseImage newLayers w)
  case Nil
  show ?case by simp
next
  case (Cons i ids)
  show ?case
  proof (cases "find (\<lambda>g. itemId g = i) wardrobe0")
    case None
    then show ?thesis using Cons.IH by simp
  next
    case (Some g)
    then show ?thesis
      using Cons.IH by (simp split: prod.splits sum.splits add: Let_def)
  qed
qed

text \<open>
  C1 (as the code has it). An id that the wardrobe does not resolve is skipped: replaying
  an outfit gives the same state and the same recorded requests as replaying it with the
  unresolved ids taken out of its list. So an unresolved id raises no error, issues no
  request and stops nothing, and what was built before it stays.
\<close>

theorem C1_unresolved_ids_are_skipped:
  "handleApplySavedOutfit E outfit w =
   handleApplySavedOutfit E
     (outfit\<lparr>garmentIds :=
        filter (\<lambda>i. find (\<lambda>g. itemId g = i) (wardrobe (app w)) \<noteq> None) (garmentIds outfit)\<rparr>) w"
proof -
  have "applyGarmentSequence E h wd (garmentIds outfit) v =
        applyGarmentSequence E h wd (filter (\<lambda>i. find (\<lambda>g. itemId g = i) wd \<noteq> None) (garmentIds outfit)) v"
    for h wd v
    using applyGarmentLoop_skips_unresolved [of E wd "garmentIds outfit"]
    by (simp add: applyGarmentSequence_def split: option.splits)
  then show ?thesis
    by (simp add: handleApplySavedOutfit_def handleApplySavedOutfit_begin_def)
qed

theorem C1_counterexample:
  "find (\<lambda>g. itemId g = ''ghost'') (wardrobe (app fresh)) = None
   \<and> error (app (handleApplySavedOutfit E_ok
        \<lparr>outfitId = ''outfit-1'', outfitName = ''Look'', garmentIds = [''ghost'', ''gemini-tee''],
         previewUrl = ''p''\<rparr> fresh)) = None
   \<and> calls (handleApplySavedOutfit E_ok
        \<lparr>outfitId = ''outfit-1'', outfitName = ''Look'', garmentIds = [''ghost'', ''gemini-tee''],
         previewUrl = ''p''\<rparr> fresh) = [UrlToFile ''tee.png'' ''Gemini Tee'', TryOn ''M0'' ''tee.png'']
   \<and> map garment (outfitHistory (app (handleApplySavedOutfit E_ok
        \<lparr>outfitId = ''outfit-1'', outfitName = ''Look'', garmentIds = [''ghost'', ''gemini-tee''],
         previewUrl = ''p''\<rparr> fresh))) = [None, Some tee]"
  by (simp add: fresh_eq handler_defs E_ok_def POSE_INSTRUCTIONS_def jacket_def tee_def)

text \<open>
  C7. Replay of the id list \<open>[a, b]\<close>, both resolved, with every request answered. The
  state before may hold any layers behind the root (none, for a fresh root). The result
  is the three-layer history root, \<open>A\<close> on the root image, \<open>B\<close> on \<open>A\<close>'s image, at
  position 2. Four requests are recorded: both garment files are fetched and both
  generations are requested afresh, the first on the root image and the second on the
  image the first one returned.
\<close>

theorem C7_replay_two_garments:
  assumes "\<not> isLoading (app w)"
    and "outfitHistory (app w) = root # redoBuffer"
    and "prop_get (poseImages root) (at POSE_INSTRUCTIONS 0) = Some rootImage" and "rootImage \<noteq> []"
    and "garmentIds outfit = [a, b]"
    and "find (\<lambda>g. itemId g = a) (wardrobe (app w)) = Some A"
    and "find (\<lambda>g. itemId g = b) (wardrobe (app w)) = Some B"
    and "respond E (calls w) (UrlToFile (url A) (name A)) = Inr fileA"
    and "respond E (calls w @ [UrlToFile (url A) (name A)]) (TryOn rootImage fileA) = Inr imageA"
    and "respond E (calls w @ [UrlToFile (url A) (name A), TryOn rootImage fileA])
           (UrlToFile (url B) (name B)) = Inr fileB"
    and "respond E (calls w @ [UrlToFile (url A) (name A), TryOn rootImage fileA,
                               UrlToFile (url B) (name B)])
           (TryOn imageA fileB) = Inr imageB"
  shows "outfitHistory (app (handleApplySavedOutfit E outfit w)) =
           [root,
            \<lparr>garment = Some A, poseImages = [(prop_key (at POSE_INSTRUCTIONS 0), imageA)]\<rparr>,
            \<lparr>garment = Some B, poseImages = [(prop_key (at POSE_INSTRUCTIONS 0), imageB)]\<rparr>]
       \<and> currentOutfitIndex (app (handleApplySavedOutfit E outfit w)) = 2
       \<and> calls (handleApplySavedOutfit E outfit w) =
           calls w @ [UrlToFile (url A) (name A), TryOn rootImage fileA,
                      UrlToFile (url B) (name B), TryOn imageA fileB]
       \<and> error (app (handleApplySavedOutfit E outfit w)) = None"
  using assms
  by (simp add: handleApplySavedOutfit_def handleApplySavedOutfit_begin_def
        applyGarmentSequence_def await_def)

theorem C7_witness:
  "\<not> isLoading (app undone)
   \<and> map garment (outfitHistory (app undone)) = [None, Some jacket, Some tee]
   \<and> garmentIds look = [itemId jacket, itemId tee]
   \<and> outfitHistory (app (handleApplySavedOutfit E_ok look undone)) =
        [\<lparr>garment = None, poseImages = [(''Full frontal view, hands on hips'', ''M0'')]\<rparr>,
         \<lparr>garment = Some jacket,
          poseImages = [(''Full frontal view, hands on hips'', ''M0+jacket.png'')]\<rparr>,
         \<lparr>garment = Some tee,
          poseImages = [(''Full frontal view, hands on hips'', ''M0+jacket.png+tee.png'')]\<rparr>]
   \<and> currentOutfitIndex (app (handleApplySavedOutfit E_ok look undone)) = 2
   \<and> calls (handleApplySavedOutfit E_ok look undone) =
        calls undone @ [UrlToFile ''jacket.png'' ''Cloud Jacket'', TryOn ''M0'' ''jacket.png'',
                        UrlToFile ''tee.png'' ''Gemini Tee'', TryOn ''M0+jacket.png'' ''tee.png'']"
proof -
  let ?root = "\<lparr>garment = None, poseImages = [(''Full frontal view, hands on hips'', ''M0'')]\<rparr>"
  let ?redo = "[\<lparr>garment = Some jacket, poseImages = [(''Full frontal view, hands on hips'', ''M0+jf'')]\<rparr>,
                \<lparr>garment = Some tee, poseImages = [(''Full frontal view, hands on hips'', ''M0+jf+tf'')]\<rparr>]"
  have h1: "\<not> isLoading (app undone)" by (simp add: undone_eq)
  have h2: "outfitHistory (app undone) = ?root # ?redo" by (simp add: undone_eq)
  have h3: "prop_get (poseImages ?root) (at POSE_INSTRUCTIONS 0) = Some ''M0''"
    by (simp add: prop_get_def prop_key_def POSE_INSTRUCTIONS_def)
  have h4: "''M0'' \<noteq> []" by simp
  have h5: "garmentIds look = [''google-cloud-jacket'', ''gemini-tee'']" by (simp add: look_def)
  have h6: "find (\<lambda>g. itemId g = ''google-cloud-jacket'') (wardrobe (app undone)) = Some jacket"
    by (simp add: undone_eq jacket_def)
  have h7: "find (\<lambda>g. itemId g = ''gemini-tee'') (wardrobe (app undone)) = Some tee"
    by (simp add: undone_eq jacket_def tee_def)
  have h8: "respond E_ok (calls undone) (UrlToFile (url jacket) (name jacket)) = Inr ''jacket.png''"
    by (simp add: E_ok_def jacket_def)
  have h9: "respond E_ok (calls undone @ [UrlToFile (url jacket) (name jacket)])
      (TryOn ''M0'' ''jacket.png'') = Inr ''M0+jacket.png''"
    by (simp add: E_ok_def)
  have h10: "respond E_ok (calls undone @ [UrlToFile (url jacket) (name jacket), TryOn ''M0'' ''jacket.png''])
      (UrlToFile (url tee) (name tee)) = Inr ''tee.png''"
    by (simp add: E_ok_def tee_def)
  have h11: "respond E_ok (calls undone @ [UrlToFile (url jacket) (name jacket), TryOn ''M0'' ''jacket.png'',
        UrlToFile (url tee) (name tee)])
      (TryOn ''M0+jacket.png'' ''tee.png'') = Inr ''M0+jacket.png+tee.png''"
    by (simp add: E_ok_def)
  have k: "prop_key (at POSE_INSTRUCTIONS 0) = ''Full frontal view, hands on hips''"
    by (simp add: prop_key_def POSE_INSTRUCTIONS_def)
  have n: "url jacket = ''jacket.png''" "name jacket = ''Cloud Jacket''"
    "url tee = ''tee.png''" "name tee = ''Gemini Tee''"
    "itemId jacket = ''google-cloud-jacket''" "itemId tee = ''gemini-tee''"
    by (simp_all add: jacket_def tee_def)
  from C7_replay_two_garments [OF h1 h2 h3 h4 h5 h6 h7 h8 h9 h10 h11]
  show ?thesis using h1 h2 h5 by (simp add: k n)
qed

lemma applyGarmentLoop_history:
  "(outfitHistory (app (applyGarmentLoop E wardrobe0 ids baseImage newLayers w)) = outfitHistory (app w)
     \<and> currentOutfitIndex (app (applyGarmentLoop E wardrobe0 ids baseImage newLayers w)) =
         currentOutfitIndex (app w))
   \<or> (\<exists>built. built \<noteq> []
        \<and> outfitHistory (app (applyGarmentLoop E wardrobe0 ids baseImage newLayers w)) = newLayers @ built
        \<and> currentOutfitIndex (app (applyGarmentLoop E wardrobe0 ids baseImage newLayers w)) =
            length (newLayers @ built) - 1)"
proof (induction ids arbitrary: baseImage newLayers w)
  case Nil
  show ?case by simp
next
  case (Cons i ids)
  show ?case
  proof (cases "find (\<lambda>g. itemId g = i) wardrobe0")
    case None
    then show ?thesis using Cons.IH by simp
  next
    case (Some g)
    let ?w0 = "w\<lparr>app := (app w)\<lparr>loadingMessage := ''Applying '' @ name g @ ''...''\<rparr>\<rparr>"
    show ?thesis
    proof (cases "respond E (calls w) (UrlToFile (url g) (name g))")
      case (Inl e)
      with Some show ?thesis by (simp add: await_def)
    next
      case fetched: (Inr garmentFile)
      show ?thesis
      proof (cases "respond E (calls w @ [UrlToFile (url g) (name g)]) (TryOn baseImage garmentFile)")
        case (Inl e)
        with Some fetched show ?thesis by (simp add: await_def)
      next
        case (Inr newImageUrl)
        let ?L = "\<lparr>garment = Some g, poseImages = [(prop_key (at POSE_INSTRUCTIONS 0), newImageUrl)]\<rparr>"
        let ?w2 = "w\<lparr>calls := calls w @ [UrlToFile (url g) (name g), TryOn baseImage garmentFile],
                      app := (app w)\<lparr>loadingMessage := ''Applying '' @ name g @ ''...'',
                                     outfitHistory := newLayers @ [?L],
                                     currentOutfitIndex := length newLayers\<rparr>\<rparr>"
        have step: "applyGarmentLoop E wardrobe0 (i # ids) baseImage newLayers w =
            applyGarmentLoop E wardrobe0 ids newImageUrl (newLayers @ [?L]) ?w2"
          using Some fetched Inr by (simp add: await_def Let_def)
        from Cons.IH [of newImageUrl "newLayers @ [?L]" ?w2]
        show ?thesis
        proof
          assume "outfitHistory (app (applyGarmentLoop E wardrobe0 ids newImageUrl (newLayers @ [?L]) ?w2)) =
                    outfitHistory (app ?w2)
                \<and> currentOutfitIndex (app (applyGarmentLoop E wardrobe0 ids newImageUrl (newLayers @ [?L]) ?w2)) =
                    currentOutfitIndex (app ?w2)"
          then have "[?L] \<noteq> []
              \<and> outfitHistory (app (applyGarmentLoop E wardrobe0 (i # ids) baseImage newLayers w)) = newLayers @ [?L]
              \<and> currentOutfitIndex (app (applyGarmentLoop E wardrobe0 (i # ids) baseImage newLayers w)) =
                  length (newLayers @ [?L]) - 1"
            unfolding step by simp
          then show ?thesis by blast
        next
          assume "\<exists>built. built \<noteq> []
              \<and> outfitHistory (app (applyGarmentLoop E wardrobe0 ids newImageUrl (newLayers @ [?L]) ?w2)) =
                  (newLayers @ [?L]) @ built
              \<and> currentOutfitIndex (app (applyGarmentLoop E wardrobe0 ids newImageUrl (newLayers @ [?L]) ?w2)) =
                  length ((newLayers @ [?L]) @ built) - 1"
          then obtain built where "outfitHistory (app (applyGarmentLoop E wardrobe0 (i # ids) baseImage newLayers w)) =
                  newLayers @ (?L # built)"
              "currentOutfitIndex (app (applyGarmentLoop E wardrobe0 (i # ids) baseImage newLayers w)) =
                  length (newLayers @ (?L # built)) - 1"
            unfolding step by auto
          then show ?thesis by blast
        qed
      qed
    qed
  qed
qed

lemma replay_unfold:
  assumes "\<not> isLoading (app w)"
    and "outfitHistory (app w) = root # redoBuffer"
    and "prop_get (poseImages root) (at POSE_INSTRUCTIONS 0) = Some rootImage" and "rootImage \<noteq> []"
  shows "handleApplySavedOutfit E outfit w =
     (let w1 = applyGarmentLoop E (wardrobe (app w))
                 (filter (\<lambda>i. find (\<lambda>g. itemId g = i) (wardrobe (app w)) \<noteq> None) (garmentIds outfit))
                 rootImage [root] (w\<lparr>app := handleApplySavedOutfit_begin outfit (app w)\<rparr>)
      in w1\<lparr>app := (app w1)\<lparr>isLoading := False, loadingMessage := []\<rparr>\<rparr>)"
  using assms applyGarmentLoop_skips_unresolved [of E "wardrobe (app w)" "garmentIds outfit"]
  by (simp add: handleApplySavedOutfit_def applyGarmentSequence_def)

text \<open>
  C10. Replay from a state that is not busy, whose root holds a non-empty image under the
  default pose and may be followed by any layers. Let \<open>a\<close> be the first id of the list
  that the wardrobe resolves, to the garment \<open>A\<close>.
  \<^item> If no id is resolved (the list may be empty), or fetching \<open>A\<close>'s file fails, or the
    generation of \<open>A\<close> on the root image fails, the history array is the one before the
    call, all its layers included, and the position is 0.
  \<^item> If that first generation succeeds, the history is the root followed by the new layer
    for \<open>A\<close> and the layers built after it, and the position is the last of them. None
    of the layers that stood behind the root before the call is in it: the history is
    the one the same replay builds when started from the root alone.
\<close>

theorem C10_replay_replaces_history_on_first_success:
  fixes E :: env and w :: world and outfit :: SavedOutfit and root :: OutfitLayer
  defines "after \<equiv> app (handleApplySavedOutfit E outfit w)"
  defines "resolved \<equiv> filter (\<lambda>i. find (\<lambda>g. itemId g = i) (wardrobe (app w)) \<noteq> None) (garmentIds outfit)"
  defines "fetchA \<equiv> \<lambda>A. UrlToFile (url A) (name A)"
  assumes "\<not> isLoading (app w)"
    and "outfitHistory (app w) = root # redoBuffer"
    and "prop_get (poseImages root) (at POSE_INSTRUCTIONS 0) = Some rootImage" and "rootImage \<noteq> []"
  shows "(resolved = [] \<longrightarrow>
            outfitHistory after = root # redoBuffer \<and> currentOutfitIndex after = 0)
       \<and> (resolved = a # rest \<longrightarrow> find (\<lambda>g. itemId g = a) (wardrobe (app w)) = Some A \<longrightarrow>
          respond E (calls w) (fetchA A) = Inl e \<longrightarrow>
            outfitHistory after = root # redoBuffer \<and> currentOutfitIndex after = 0)
       \<and> (resolved = a # rest \<longrightarrow> find (\<lambda>g. itemId g = a) (wardrobe (app w)) = Some A \<longrightarrow>
          respond E (calls w) (fetchA A) = Inr fileA \<longrightarrow>
          respond E (calls w @ [fetchA A]) (TryOn rootImage fileA) = Inl e \<longrightarrow>
            outfitHistory after = root # redoBuffer \<and> currentOutfitIndex after = 0)
       \<and> (resolved = a # rest \<longrightarrow> find (\<lambda>g. itemId g = a) (wardrobe (app w)) = Some A \<longrightarrow>
          respond E (calls w) (fetchA A) = Inr fileA \<longrightarrow>
          respond E (calls w @ [fetchA A]) (TryOn rootImage fileA) = Inr imageA \<longrightarrow>
            (\<exists>built. outfitHistory after =
                root # \<lparr>garment = Some A, poseImages = [(prop_key (at POSE_INSTRUCTIONS 0), imageA)]\<rparr> # built
              \<and> currentOutfitIndex after = length built + 1)
          \<and> outfitHistory after =
              outfitHistory (app (handleApplySavedOutfit E outfit
                (w\<lparr>app := (app w)\<lparr>outfitHistory := [root]\<rparr>\<rparr>))))"
proof -
  let ?wd = "wardrobe (app w)"
  let ?w0 = "w\<lparr>app := handleApplySavedOutfit_begin outfit (app w)\<rparr>"
  let ?bare = "w\<lparr>app := (app w)\<lparr>outfitHistory := [root]\<rparr>\<rparr>"
  let ?b0 = "?bare\<lparr>app := handleApplySavedOutfit_begin outfit (app ?bare)\<rparr>"
  have unf: "after = (let w1 = applyGarmentLoop E ?wd resolved rootImage [root] ?w0
                      in (app w1)\<lparr>isLoading := False, loadingMessage := []\<rparr>)"
    unfolding after_def resolved_def
    by (simp add: replay_unfold [OF assms(4-7)] Let_def)
  have unf_bare: "app (handleApplySavedOutfit E outfit ?bare) =
                     (let w1 = applyGarmentLoop E ?wd resolved rootImage [root] ?b0
                      in (app w1)\<lparr>isLoading := False, loadingMessage := []\<rparr>)"
    unfolding resolved_def
    using replay_unfold [of ?bare root "[]" rootImage E outfit] assms(4,6,7)
    by (simp add: Let_def)
  have start: "outfitHistory (app ?w0) = root # redoBuffer" "currentOutfitIndex (app ?w0) = 0"
    using assms(5) by (simp_all add: handleApplySavedOutfit_begin_def)
  have none: "outfitHistory after = root # redoBuffer \<and> currentOutfitIndex after = 0"
    if "resolved = []"
    using that start by (simp add: unf)
  have fetch_fails: "outfitHistory after = root # redoBuffer \<and> currentOutfitIndex after = 0"
    if "resolved = a # rest" "find (\<lambda>g. itemId g = a) ?wd = Some A"
       "respond E (calls w) (fetchA A) = Inl e"
    using that start by (simp add: unf await_def fetchA_def)
  have gen_fails: "outfitHistory after = root # redoBuffer \<and> currentOutfitIndex after = 0"
    if "resolved = a # rest" "find (\<lambda>g. itemId g = a) ?wd = Some A"
       "respond E (calls w) (fetchA A) = Inr fileA"
       "respond E (calls w @ [fetchA A]) (TryOn rootImage fileA) = Inl e"
    using that start by (simp add: unf await_def fetchA_def)
  have success: "(\<exists>built. outfitHistory after =
                root # \<lparr>garment = Some A, poseImages = [(prop_key (at POSE_INSTRUCTIONS 0), imageA)]\<rparr> # built
              \<and> currentOutfitIndex after = length built + 1)
          \<and> outfitHistory after = outfitHistory (app (handleApplySavedOutfit E outfit ?bare))"
    if r: "resolved = a # rest" "find (\<lambda>g. itemId g = a) ?wd = Some A"
       "respond E (calls w) (fetchA A) = Inr fileA"
       "respond E (calls w @ [fetchA A]) (TryOn rootImage fileA) = Inr imageA"
  proof -
    let ?L = "\<lparr>garment = Some A, poseImages = [(prop_key (at POSE_INSTRUCTIONS 0), imageA)]\<rparr>"
    let ?w2 = "w\<lparr>calls := calls w @ [fetchA A, TryOn rootImage fileA],
                  app := (handleApplySavedOutfit_begin outfit (app w))
                           \<lparr>loadingMessage := ''Applying '' @ name A @ ''...'',
                            outfitHistory := [root, ?L],
                            currentOutfitIndex := 1\<rparr>\<rparr>"
    have step: "applyGarmentLoop E ?wd resolved rootImage [root] ?w0 =
                applyGarmentLoop E ?wd rest imageA [root, ?L] ?w2"
      using r by (simp add: await_def fetchA_def Let_def)
    have step_bare: "applyGarmentLoop E ?wd resolved rootImage [root] ?b0 =
                applyGarmentLoop E ?wd rest imageA [root, ?L] ?w2"
      using r by (simp add: await_def fetchA_def Let_def handleApplySavedOutfit_begin_def)
    have same: "outfitHistory after = outfitHistory (app (handleApplySavedOutfit E outfit ?bare))"
      unfolding unf unf_bare Let_def step step_bare by (rule refl)
    have w2: "outfitHistory (app ?w2) = [root, ?L]" "currentOutfitIndex (app ?w2) = 1"
      by simp_all
    from applyGarmentLoop_history [of E ?wd rest imageA "[root, ?L]" ?w2]
    have "\<exists>built. outfitHistory after = root # ?L # built \<and> currentOutfitIndex after = length built + 1"
    proof
      assume "outfitHistory (app (applyGarmentLoop E ?wd rest imageA [root, ?L] ?w2)) = outfitHistory (app ?w2)
            \<and> currentOutfitIndex (app (applyGarmentLoop E ?wd rest imageA [root, ?L] ?w2)) =
                currentOutfitIndex (app ?w2)"
      then have "outfitHistory after = root # ?L # [] \<and> currentOutfitIndex after = length ([]::OutfitLayer list) + 1"
        unfolding unf step Let_def w2 by simp
      then show ?thesis by blast
    next
      assume "\<exists>built. built \<noteq> []
            \<and> outfitHistory (app (applyGarmentLoop E ?wd rest imageA [root, ?L] ?w2)) = [root, ?L] @ built
            \<and> currentOutfitIndex (app (applyGarmentLoop E ?wd rest imageA [root, ?L] ?w2)) =
                length ([root, ?L] @ built) - 1"
      then obtain built where
        "outfitHistory (app (applyGarmentLoop E ?wd rest imageA [root, ?L] ?w2)) = [root, ?L] @ built"
        "currentOutfitIndex (app (applyGarmentLoop E ?wd rest imageA [root, ?L] ?w2)) =
                length ([root, ?L] @ built) - 1"
        by blast
      then have "outfitHistory after = root # ?L # built \<and> currentOutfitIndex after = length built + 1"
        unfolding unf step Let_def by simp
      then show ?thesis by blast
    qed
    with same show ?thesis by blast
  qed
  show ?thesis
    using none fetch_fails gen_fails success by blast
qed

theorem C10_witness:
  "\<not> isLoading (app undone)
   \<and> map garment (outfitHistory (app undone)) = [None, Some jacket, Some tee]
   \<and> outfitHistory (app (handleApplySavedOutfit E_ok ghosts undone)) = outfitHistory (app undone)
   \<and> currentOutfitIndex (app (handleApplySavedOutfit E_ok ghosts undone)) = 0
   \<and> outfitHistory (app (handleApplySavedOutfit E_fail look undone)) = outfitHistory (app undone)
   \<and> currentOutfitIndex (app (handleApplySavedOutfit E_fail look undone)) = 0
   \<and> outfitHistory (app (handleApplySavedOutfit E_nogen look undone)) = outfitHistory (app undone)
   \<and> currentOutfitIndex (app (handleApplySavedOutfit E_nogen look undone)) = 0
   \<and> outfitHistory (app (handleApplySavedOutfit E_ok look undone)) =
        [\<lparr>garment = None, poseImages = [(''Full frontal view, hands on hips'', ''M0'')]\<rparr>,
         \<lparr>garment = Some jacket,
          poseImages = [(''Full frontal view, hands on hips'', ''M0+jacket.png'')]\<rparr>,
         \<lparr>garment = Some tee,
          poseImages = [(''Full frontal view, hands on hips'', ''M0+jacket.png+tee.png'')]\<rparr>]
   \<and> outfitHistory (app (handleApplySavedOutfit E_ok look undone)) =
        outfitHistory (app (handleApplySavedOutfit E_ok look
          (undone\<lparr>app := (app undone)\<lparr>outfitHistory :=
             [\<lparr>garment = None, poseImages = [(''Full frontal view, hands on hips'', ''M0'')]\<rparr>]\<rparr>\<rparr>)))"
proof -
  let ?root = "\<lparr>garment = None, poseImages = [(''Full frontal view, hands on hips'', ''M0'')]\<rparr>"
  let ?redo = "[\<lparr>garment = Some jacket, poseImages = [(''Full frontal view, hands on hips'', ''M0+jf'')]\<rparr>,
                \<lparr>garment = Some tee, poseImages = [(''Full frontal view, hands on hips'', ''M0+jf+tf'')]\<rparr>]"
  have h1: "\<not> isLoading (app undone)" by (simp add: undone_eq)
  have h2: "outfitHistory (app undone) = ?root # ?redo" by (simp add: undone_eq)
  have h3: "prop_get (poseImages ?root) (at POSE_INSTRUCTIONS 0) = Some ''M0''"
    by (simp add: prop_get_def prop_key_def POSE_INSTRUCTIONS_def)
  have h4: "''M0'' \<noteq> []" by simp
  have wd: "wardrobe (app undone) = [jacket, tee]" by (simp add: undone_eq)
  have r0: "filter (\<lambda>i. find (\<lambda>g. itemId g = i) (wardrobe (app undone)) \<noteq> None) (garmentIds ghosts) = []"
    by (simp add: wd ghosts_def jacket_def tee_def)
  have r1: "filter (\<lambda>i. find (\<lambda>g. itemId g = i) (wardrobe (app undone)) \<noteq> None) (garmentIds look) =
      [''google-cloud-jacket'', ''gemini-tee'']"
    by (simp add: wd look_def jacket_def tee_def)
  have fj: "find (\<lambda>g. itemId g = ''google-cloud-jacket'') (wardrobe (app undone)) = Some jacket"
    by (simp add: wd jacket_def)
  have k: "prop_key (at POSE_INSTRUCTIONS 0) = ''Full frontal view, hands on hips''"
    by (simp add: prop_key_def POSE_INSTRUCTIONS_def)
  have n: "url jacket = ''jacket.png''" "name jacket = ''Cloud Jacket''"
    by (simp_all add: jacket_def)
  have a: "outfitHistory (app (handleApplySavedOutfit E_ok ghosts undone)) = ?root # ?redo
      \<and> currentOutfitIndex (app (handleApplySavedOutfit E_ok ghosts undone)) = 0"
    using C10_replay_replaces_history_on_first_success [OF h1 h2 h3 h4, where E = E_ok and outfit = ghosts] r0
    by blast
  have e1: "respond E_fail (calls undone) (UrlToFile (url jacket) (name jacket)) = Inl ''boom''"
    by (simp add: E_fail_def)
  have b: "outfitHistory (app (handleApplySavedOutfit E_fail look undone)) = ?root # ?redo
      \<and> currentOutfitIndex (app (handleApplySavedOutfit E_fail look undone)) = 0"
    using C10_replay_replaces_history_on_first_success [OF h1 h2 h3 h4, where E = E_fail and outfit = look
        and a = "''google-cloud-jacket''" and rest = "[''gemini-tee'']" and A = jacket and e = "''boom''"]
      r1 fj e1
    by blast
  have e2: "respond E_nogen (calls undone) (UrlToFile (url jacket) (name jacket)) = Inr ''jacket.png''"
    "respond E_nogen (calls undone @ [UrlToFile (url jacket) (name jacket)]) (TryOn ''M0'' ''jacket.png'')
       = Inl ''refused''"
    by (simp_all add: E_nogen_def n)
  have c: "outfitHistory (app (handleApplySavedOutfit E_nogen look undone)) = ?root # ?redo
      \<and> currentOutfitIndex (app (handleApplySavedOutfit E_nogen look undone)) = 0"
    using C10_replay_replaces_history_on_first_success [OF h1 h2 h3 h4, where E = E_nogen and outfit = look
        and a = "''google-cloud-jacket''" and rest = "[''gemini-tee'']" and A = jacket
        and e = "''refused''" and fileA = "''jacket.png''"]
      r1 fj e2
    by blast
  have e3: "respond E_ok (calls undone) (UrlToFile (url jacket) (name jacket)) = Inr ''jacket.png''"
    "respond E_ok (calls undone @ [UrlToFile (url jacket) (name jacket)]) (TryOn ''M0'' ''jacket.png'')
       = Inr ''M0+jacket.png''"
    by (simp_all add: E_ok_def n)
  have d: "outfitHistory (app (handleApplySavedOutfit E_ok look undone)) =
        outfitHistory (app (handleApplySavedOutfit E_ok look
          (undone\<lparr>app := (app undone)\<lparr>outfitHistory := [?root]\<rparr>\<rparr>)))"
    using C10_replay_replaces_history_on_first_success [OF h1 h2 h3 h4, where E = E_ok and outfit = look
        and a = "''google-cloud-jacket''" and rest = "[''gemini-tee'']" and A = jacket
        and fileA = "''jacket.png''" and imageA = "''M0+jacket.png''"]
      r1 fj e3
    by blast
  have full: "outfitHistory (app (handleApplySavedOutfit E_ok look undone)) =
        [?root,
         \<lparr>garment = Some jacket, poseImages = [(''Full frontal view, hands on hips'', ''M0+jacket.png'')]\<rparr>,
         \<lparr>garment = Some tee, poseImages = [(''Full frontal view, hands on hips'', ''M0+jacket.png+tee.png'')]\<rparr>]"
    by (simp add: undone_eq look_def handler_defs E_ok_def POSE_INSTRUCTIONS_def jacket_def tee_def)
  show ?thesis
    using h1 h2 a b c d full by simp
qed

section \<open>The root layer\<close>

lemma root_inv_init: "root_inv u (handleModelFinalized u s)"
  by (simp add: root_inv_def root_of_def handleModelFinalized_def)

lemma root_inv_remove: "root_inv u s \<Longrightarrow> root_inv u (handleRemoveLastGarment s)"
  by (simp add: root_inv_def handleRemoveLastGarment_def)

lemma root_inv_add:
  assumes "root_inv u (app w)"
  shows "root_inv u (app (handleGarmentSelect E garmentFile garmentInfo w))"
proof -
  from assms obtain l ls where h: "outfitHistory (app w) = l # ls" and l: "root_of u l"
    by (auto simp: root_inv_def split: list.splits)
  show ?thesis
    using h l
    by (auto simp: handleGarmentSelect_def handleGarmentSelect_begin_def handleGarmentSelect_resume_def
          await_def root_inv_def
          split: option.splits sum.splits)
qed

lemma root_inv_pose:
  assumes "root_inv u (app w)"
  shows "root_inv u (app (handlePoseSelect E newIndex w))"
proof -
  from assms obtain l ls where h: "outfitHistory (app w) = l # ls" and l: "root_of u l"
    by (auto simp: root_inv_def split: list.splits)
  from l obtain extra where g: "garment l = None"
      and p: "poseImages l = (prop_key (at POSE_INSTRUCTIONS 0), u) # extra"
    by (auto simp: root_of_def split: list.splits)
  show ?thesis
  proof (cases "handlePoseSelect_begin newIndex (app w)")
    case (Returned s)
    then have "outfitHistory s = outfitHistory (app w)"
      by (auto simp: handlePoseSelect_begin_def Let_def split: if_splits option.splits)
    with Returned assms show ?thesis
      by (simp add: handlePoseSelect_def root_inv_def)
  next
    case (Threw s)
    then have "outfitHistory s = outfitHistory (app w)"
      by (auto simp: handlePoseSelect_begin_def Let_def split: if_splits option.splits)
    with Threw assms show ?thesis
      by (simp add: handlePoseSelect_def root_inv_def)
  next
    case (Awaiting c s1)
    then obtain layer base where
        cur: "at (outfitHistory (app w)) (currentOutfitIndex (app w)) = Some layer"
      and miss: "\<not> truthy (prop_get (poseImages layer) (at POSE_INSTRUCTIONS newIndex))"
      and base: "first_value (poseImages layer) = Some base" "base \<noteq> []"
      and s1: "outfitHistory s1 = outfitHistory (app w)"
      by (auto simp: handlePoseSelect_begin_def Let_def split: if_splits option.splits)
    let ?k = "at POSE_INSTRUCTIONS newIndex"
    let ?i = "currentOutfitIndex (app w)"
    have keep: "root_inv u ((app w)\<lparr>outfitHistory :=
        (outfitHistory (app w))[?i := layer\<lparr>poseImages := prop_set (poseImages layer) ?k v\<rparr>]\<rparr>)" for v
    proof (cases ?i)
      case 0
      with cur h have layer: "layer = l" by simp
      with base p have "u \<noteq> []" by (simp add: first_value_def)
      with miss layer p have "prop_key ?k \<noteq> prop_key (at POSE_INSTRUCTIONS 0)"
        by (auto simp: truthy_def prop_get_def)
      then have "prop_set (poseImages l) ?k v =
          (prop_key (at POSE_INSTRUCTIONS 0), u) # prop_put (prop_key ?k) v extra"
        by (auto simp: prop_set_def p)
      with 0 h layer g show ?thesis
        by (simp add: root_inv_def root_of_def)
    next
      case (Suc j)
      with h l show ?thesis by (simp add: root_inv_def)
    qed
    show ?thesis
    proof (cases "respond E (calls w) c")
      case (Inl e)
      with Awaiting s1 assms show ?thesis
        by (simp add: handlePoseSelect_def handlePoseSelect_resume_def await_def root_inv_def)
    next
      case (Inr v)
      with Awaiting s1 cur keep [of v] show ?thesis
        by (simp add: handlePoseSelect_def handlePoseSelect_resume_def await_def root_inv_def)
    qed
  qed
qed

lemma root_inv_replay:
  assumes "root_inv u (app w)"
  shows "root_inv u (app (handleApplySavedOutfit E outfit w))"
proof -
  from assms obtain l ls where h: "outfitHistory (app w) = l # ls" and l: "root_of u l"
    by (auto simp: root_inv_def split: list.splits)
  let ?w0 = "w\<lparr>app := handleApplySavedOutfit_begin outfit (app w)\<rparr>"
  have h0: "outfitHistory (app ?w0) = l # ls"
    using h by (simp add: handleApplySavedOutfit_begin_def)
  have loop: "root_inv u (app (applyGarmentLoop E wd ids b [l] ?w0))" for wd ids b
    using applyGarmentLoop_history [of E wd ids b "[l]" ?w0] h0 l
    by (auto simp: root_inv_def)
  have "root_inv u (app (applyGarmentSequence E (outfitHistory (app w)) wd ids ?w0))" for wd ids
    using loop h0 l
    by (auto simp: applyGarmentSequence_def h root_inv_def split: option.splits)
  then show ?thesis
    using assms by (simp add: handleApplySavedOutfit_def root_inv_def Let_def)
qed

lemma root_inv_perform: "root_inv u (app w) \<Longrightarrow> root_inv u (app (perform E x w))"
  by (cases x) (simp_all add: root_inv_add root_inv_remove root_inv_pose root_inv_replay)

lemma root_inv_run: "root_inv u (app w) \<Longrightarrow> root_inv u (app (run E xs w))"
  by (induction xs arbitrary: w) (simp_all add: root_inv_perform)

text \<open>
  C3 (as the code has it). After \<open>Initialize\<close> with a base image and any sequence of
  \<open>AddGarment\<close>, \<open>RemoveLastGarment\<close>, \<open>SelectPose\<close> and \<open>ApplySavedOutfit\<close>, whatever the
  services answer, the history has a layer at position 0, that layer has no garment, and
  the first entry of its pose dictionary maps the default pose to the base image, so a
  lookup of the default pose yields the base image. Further pose entries may follow it.
\<close>

theorem C3_root_layer_keeps_base_image:
  "\<exists>rootLayer later extra.
     outfitHistory (app (run E xs \<lparr>app = handleModelFinalized baseImage s, calls = cs\<rparr>)) = rootLayer # later
   \<and> garment rootLayer = None
   \<and> poseImages rootLayer = (prop_key (at POSE_INSTRUCTIONS 0), baseImage) # extra
   \<and> prop_get (poseImages rootLayer) (at POSE_INSTRUCTIONS 0) = Some baseImage"
proof -
  have "root_inv baseImage (app (run E xs \<lparr>app = handleModelFinalized baseImage s, calls = cs\<rparr>))"
    by (rule root_inv_run) (simp add: root_inv_init)
  then show ?thesis
    by (auto simp: root_inv_def root_of_def prop_get_def split: list.splits)
qed

text \<open>
  The root's dictionary does not stay at one entry: selecting the second pose on the
  fresh root renders it and stores it in the root layer.
\<close>

theorem C3_counterexample:
  "map poseImages (outfitHistory (app (run E_ok [SelectPose 1] fresh))) =
     [[(''Full frontal view, hands on hips'', ''M0''), (''Slightly turned, 3/4 view'', ''M0~'')]]
   \<and> length (poseImages (hd (outfitHistory (app (run E_ok [SelectPose 1] fresh))))) = 2"
  by (simp add: fresh_eq handler_defs E_ok_def POSE_INSTRUCTIONS_def at_def)

section \<open>Well-formed states are the states the handlers produce\<close>

text \<open>
  The well-formedness assumed of a state above is not an extra demand: when the services
  never answer with an empty string, \<open>handleModelFinalized\<close> on a non-empty base image
  gives a well-formed state and every operation keeps it.
\<close>

lemma map_of_prop_put: "map_of (prop_put k v ps) k' = (if k' = k then Some v else map_of ps k')"
  by (induction ps) auto

lemma keys_prop_put: "set (map fst (prop_put k v ps)) = insert k (set (map fst ps))"
  by (induction ps) auto

lemma distinct_prop_put: "distinct (map fst ps) \<Longrightarrow> distinct (map fst (prop_put k v ps))"
proof (induction ps)
  case Nil
  show ?case by simp
next
  case (Cons p ps)
  have "fst p \<noteq> k \<Longrightarrow> fst p \<notin> set (map fst (prop_put k v ps))"
    using Cons.prems by (simp only: keys_prop_put) auto
  with Cons show ?case by auto
qed

lemma nonempty_prop_put:
  "list_all (\<lambda>p. snd p \<noteq> []) ps \<Longrightarrow> v \<noteq> [] \<Longrightarrow> list_all (\<lambda>p. snd p \<noteq> []) (prop_put k v ps)"
  by (induction ps) auto

lemma wf_layer_put:
  assumes "wf_layer l" and "v \<noteq> []"
  shows "wf_layer (l\<lparr>poseImages := prop_set (poseImages l) k v\<rparr>)"
  using assms
  by (auto simp: wf_layer_def prop_set_def prop_get_def truthy_def map_of_prop_put
        distinct_prop_put nonempty_prop_put split: option.splits)

lemma wf_layer_new:
  "v \<noteq> [] \<Longrightarrow> wf_layer \<lparr>garment = g, poseImages = [(prop_key (at POSE_INSTRUCTIONS 0), v)]\<rparr>"
  by (simp add: wf_layer_def prop_get_def truthy_def)

lemma wf_state_init: "u \<noteq> [] \<Longrightarrow> wf_state (handleModelFinalized u s)"
  by (simp add: wf_state_def handleModelFinalized_def wf_layer_new)

lemma wf_state_remove: "wf_state s \<Longrightarrow> wf_state (handleRemoveLastGarment s)"
  by (auto simp: wf_state_def handleRemoveLastGarment_def)

lemma wf_state_add:
  assumes ne: "\<And>log c v. respond E log c = Inr v \<Longrightarrow> v \<noteq> []"
    and wf: "wf_state (app w)"
  shows "wf_state (app (handleGarmentSelect E garmentFile garmentInfo w))"
proof (cases "handleGarmentSelect_begin garmentFile garmentInfo (app w)")
  case (Returned s)
  then have "s = app w \<or> (currentOutfitIndex (app w) + 1 < length (outfitHistory (app w))
      \<and> s = (app w)\<lparr>currentOutfitIndex := currentOutfitIndex (app w) + 1, currentPoseIndex := 0\<rparr>)"
    by (auto simp: handleGarmentSelect_begin_def at_def split: option.splits if_splits)
  with Returned wf show ?thesis
    by (auto simp: handleGarmentSelect_def wf_state_def)
next
  case (Threw s)
  then show ?thesis
    by (auto simp: handleGarmentSelect_begin_def split: option.splits if_splits)
next
  case (Awaiting c s1)
  then have s1: "outfitHistory s1 = outfitHistory (app w)" "currentOutfitIndex s1 = currentOutfitIndex (app w)"
    by (auto simp: handleGarmentSelect_begin_def split: option.splits if_splits)
  show ?thesis
  proof (cases "respond E (calls w) c")
    case (Inl e)
    with Awaiting s1 wf show ?thesis
      by (simp add: handleGarmentSelect_def handleGarmentSelect_resume_def await_def wf_state_def)
  next
    case (Inr v)
    then have "v \<noteq> []" by (rule ne)
    then have "wf_layer \<lparr>garment = Some garmentInfo, poseImages = [(prop_key (at POSE_INSTRUCTIONS 0), v)]\<rparr>"
      by (rule wf_layer_new)
    moreover have "list_all wf_layer (take (currentOutfitIndex (app w) + 1) (outfitHistory (app w)))"
      using wf by (auto simp: wf_state_def list_all_iff dest: in_set_takeD)
    ultimately show ?thesis
      using Awaiting s1 Inr wf
      by (simp add: handleGarmentSelect_def handleGarmentSelect_resume_def await_def wf_state_def)
  qed
qed

lemma wf_state_pose:
  assumes ne: "\<And>log c v. respond E log c = Inr v \<Longrightarrow> v \<noteq> []"
    and wf: "wf_state (app w)"
  shows "wf_state (app (handlePoseSelect E newIndex w))"
proof (cases "handlePoseSelect_begin newIndex (app w)")
  case (Returned s)
  then have "outfitHistory s = outfitHistory (app w) \<and> currentOutfitIndex s = currentOutfitIndex (app w)"
    by (auto simp: handlePoseSelect_begin_def Let_def split: option.splits if_splits)
  with Returned wf show ?thesis
    by (simp add: handlePoseSelect_def wf_state_def)
next
  case (Threw s)
  then have "s = app w"
    by (auto simp: handlePoseSelect_begin_def Let_def split: option.splits if_splits)
  with Threw wf show ?thesis
    by (simp add: handlePoseSelect_def)
next
  case (Awaiting c s1)
  then have s1: "outfitHistory s1 = outfitHistory (app w)" "currentOutfitIndex s1 = currentOutfitIndex (app w)"
    by (auto simp: handlePoseSelect_begin_def Let_def split: option.splits if_splits)
  show ?thesis
  proof (cases "respond E (calls w) c")
    case (Inl e)
    with Awaiting s1 wf show ?thesis
      by (simp add: handlePoseSelect_def handlePoseSelect_resume_def await_def wf_state_def)
  next
    case (Inr v)
    then have v: "v \<noteq> []" by (rule ne)
    let ?i = "currentOutfitIndex (app w)"
    let ?h = "outfitHistory (app w)"
    have i: "?i < length ?h" and all: "list_all wf_layer ?h"
      using wf by (simp_all add: wf_state_def)
    then have "wf_layer (?h ! ?i)" by (simp add: list_all_length)
    then have "wf_layer ((?h ! ?i)\<lparr>poseImages := prop_set (poseImages (?h ! ?i)) k v\<rparr>)" for k
      using v by (rule wf_layer_put)
    then have "list_all wf_layer (?h[?i := (?h ! ?i)\<lparr>poseImages := prop_set (poseImages (?h ! ?i)) k v\<rparr>])" for k
      using all set_update_subset_insert [of ?h ?i] by (auto simp: list_all_iff)
    with Awaiting s1 Inr i show ?thesis
      by (simp add: handlePoseSelect_def handlePoseSelect_resume_def await_def wf_state_def at_def)
  qed
qed

lemma applyGarmentLoop_wf_layers:
  assumes ne: "\<And>log c v. respond E log c = Inr v \<Longrightarrow> v \<noteq> []"
  shows "list_all wf_layer newLayers \<Longrightarrow> list_all wf_layer (outfitHistory (app w)) \<Longrightarrow>
         list_all wf_layer (outfitHistory (app (applyGarmentLoop E wardrobe0 ids baseImage newLayers w)))"
proof (induction ids arbitrary: baseImage newLayers w)
  case Nil
  then show ?case by simp
next
  case (Cons i ids)
  show ?case
  proof (cases "find (\<lambda>g. itemId g = i) wardrobe0")
    case None
    with Cons show ?thesis by simp
  next
    case (Some g)
    show ?thesis
    proof (cases "respond E (calls w) (UrlToFile (url g) (name g))")
      case (Inl e)
      with Some Cons.prems show ?thesis by (simp add: await_def)
    next
      case fetched: (Inr garmentFile)
      show ?thesis
      proof (cases "respond E (calls w @ [UrlToFile (url g) (name g)]) (TryOn baseImage garmentFile)")
        case (Inl e)
        with Some fetched Cons.prems show ?thesis by (simp add: await_def)
      next
        case (Inr v)
        then have "v \<noteq> []" by (rule ne)
        then have "list_all wf_layer
            (newLayers @ [\<lparr>garment = Some g, poseImages = [(prop_key (at POSE_INSTRUCTIONS 0), v)]\<rparr>])"
          using Cons.prems(1) by (simp add: wf_layer_new)
        then show ?thesis
          using Some fetched Inr by (simp add: await_def Let_def Cons.IH)
      qed
    qed
  qed
qed

lemma wf_state_replay:
  assumes ne: "\<And>log c v. respond E log c = Inr v \<Longrightarrow> v \<noteq> []"
    and wf: "wf_state (app w)"
  shows "wf_state (app (handleApplySavedOutfit E outfit w))"
proof (cases "isLoading (app w)")
  case True
  with wf show ?thesis by (simp add: handleApplySavedOutfit_def)
next
  case False
  from wf obtain l ls where h: "outfitHistory (app w) = l # ls"
    by (cases "outfitHistory (app w)") (auto simp: wf_state_def)
  from wf h have all: "list_all wf_layer (l # ls)" and l: "wf_layer l"
    by (simp_all add: wf_state_def)
  let ?w0 = "w\<lparr>app := handleApplySavedOutfit_begin outfit (app w)\<rparr>"
  have w0: "outfitHistory (app ?w0) = l # ls" "currentOutfitIndex (app ?w0) = 0"
    using h by (simp_all add: handleApplySavedOutfit_begin_def)
  have start: "wf_state (app ?w0)"
    using w0 all by (simp add: wf_state_def)
  have loop: "wf_state (app (applyGarmentLoop E wd ids b [l] ?w0))" for wd ids b
  proof -
    have layers: "list_all wf_layer (outfitHistory (app (applyGarmentLoop E wd ids b [l] ?w0)))"
      using applyGarmentLoop_wf_layers [OF ne, where newLayers = "[l]" and w = ?w0] l all w0 by simp
    from applyGarmentLoop_history [of E wd ids b "[l]" ?w0]
    have "currentOutfitIndex (app (applyGarmentLoop E wd ids b [l] ?w0)) <
          length (outfitHistory (app (applyGarmentLoop E wd ids b [l] ?w0)))"
      using w0 by auto
    with layers show ?thesis by (simp add: wf_state_def)
  qed
  have "wf_state (app (applyGarmentSequence E (outfitHistory (app w)) wd ids ?w0))" for wd ids
    using loop start
    by (auto simp: applyGarmentSequence_def h wf_state_def split: option.splits)
  with False show ?thesis
    by (simp add: handleApplySavedOutfit_def wf_state_def Let_def)
qed

lemma wf_state_run:
  assumes ne: "\<And>log c v. respond E log c = Inr v \<Longrightarrow> v \<noteq> []"
  shows "wf_state (app w) \<Longrightarrow> wf_state (app (run E xs w))"
proof (induction xs arbitrary: w)
  case Nil
  then show ?case by simp
next
  case (Cons x xs)
  have "wf_state (app (perform E x w))"
    using Cons.prems
    by (cases x) (simp_all add: wf_state_add [OF ne] wf_state_remove wf_state_pose [OF ne] wf_state_replay [OF ne])
  then show ?case using Cons.IH by simp
qed

lemma wf_state_reachable:
  assumes "\<And>log c v. respond E log c = Inr v \<Longrightarrow> v \<noteq> []" and "baseImage \<noteq> []"
  shows "wf_state (app (run E xs \<lparr>app = handleModelFinalized baseImage s, calls = cs\<rparr>))"
proof (rule wf_state_run [OF assms(1)])
  show "wf_state (app \<lparr>app = handleModelFinalized baseImage s, calls = cs\<rparr>)"
    using assms(2) by (simp add: wf_state_init)
qed
end
